theory Spec2Isabelle
  imports Complex_Main "HOL-Library.Log_Nat"
begin

section \<open>Python numbers\<close>

text \<open>
  The calculator of \<^verbatim>\<open>mcps/accountant/tax_calculator.py\<close> computes on Python floats,
  that is on IEEE-754 binary64 values with round-to-nearest, ties-to-even. A finite
  binary64 value is modelled by the rational number it denotes, and every arithmetic
  operation rounds its exact result with \<open>fl\<close>: 53 significant bits, the exponent
  bounded below (gradual underflow at \<open>2 powi - 1074\<close>). The upper end of the exponent
  range is left open: the model has no overflow to infinity and no NaN, so it agrees with
  Python wherever no intermediate result reaches \<open>2 ^ 1024\<close>. The one infinite value of
  the source, \<^verbatim>\<open>float('inf')\<close> as the last bracket bound, is the constructor \<open>PosInf\<close>.
\<close>

definition rhe :: "rat \<Rightarrow> int" where
  \<comment> \<open>round to the nearest integer, ties to the even one\<close>
  "rhe x = (let n = \<lfloor>x\<rfloor>; r = x - of_int n
            in if r < 1 / 2 then n else if 1 / 2 < r then n + 1
               else if even n then n else n + 1)"

definition ilog2 :: "rat \<Rightarrow> int" where
  \<comment> \<open>for \<open>0 < x\<close>: the exponent \<open>e\<close> with \<open>2 powi e \<le> x < 2 powi (e + 1)\<close>\<close>
  "ilog2 x = (if 1 \<le> x then bitlen \<lfloor>x\<rfloor> - 1 else - bitlen (\<lceil>1 / x\<rceil> - 1))"

definition qexp :: "rat \<Rightarrow> int" where
  \<comment> \<open>for \<open>0 < x\<close>: the exponent of the last place of the binary64 values around \<open>x\<close>\<close>
  "qexp x = max (ilog2 x) (- 1022) - 52"

definition fl :: "rat \<Rightarrow> rat" where
  \<comment> \<open>the binary64 value nearest to \<open>x\<close>\<close>
  "fl x = (if x = 0 then 0
           else let q = qexp \<bar>x\<bar>
                in sgn x * of_int (rhe (\<bar>x\<bar> / 2 powi q)) * 2 powi q)"

definition fadd :: "rat \<Rightarrow> rat \<Rightarrow> rat" where
  "fadd a b = fl (a + b)"

definition fsub :: "rat \<Rightarrow> rat \<Rightarrow> rat" where
  "fsub a b = fl (a - b)"

definition fmul :: "rat \<Rightarrow> rat \<Rightarrow> rat" where
  "fmul a b = fl (a * b)"

definition fdiv :: "rat \<Rightarrow> rat \<Rightarrow> rat" where
  \<comment> \<open>true division; its one use in the source is guarded by \<open>0 < b\<close>\<close>
  "fdiv a b = fl (a / b)"

definition py_round :: "nat \<Rightarrow> rat \<Rightarrow> rat" where
  \<comment> \<open>\<^verbatim>\<open>round(x, nd)\<close> on a float: the exact value of \<open>x\<close> rounded half-even to \<open>nd\<close>
      decimals, and that decimal converted back to binary64\<close>
  "py_round nd x = fl (of_int (rhe (x * 10 ^ nd)) / 10 ^ nd)"

definition py_fmod :: "rat \<Rightarrow> rat \<Rightarrow> rat" where
  \<comment> \<open>C \<^verbatim>\<open>fmod\<close>: exact, with the sign of the dividend\<close>
  "py_fmod vx wx =
     vx - wx * of_int (if 0 \<le> vx / wx then \<lfloor>vx / wx\<rfloor> else \<lceil>vx / wx\<rceil>)"

definition py_floordiv :: "rat \<Rightarrow> rat \<Rightarrow> rat" where
  \<comment> \<open>\<^verbatim>\<open>vx // wx\<close> on floats, as CPython computes it, for \<open>wx \<noteq> 0\<close> (the source divides
      by the constant 1000 only)\<close>
  "py_floordiv vx wx =
     (let m = py_fmod vx wx;
          d = fdiv (fsub vx m) wx;
          d' = (if m \<noteq> 0 \<and> ((wx < 0) \<noteq> (m < 0)) then fsub d 1 else d)
      in if d' \<noteq> 0
         then (let f = of_int \<lfloor>d'\<rfloor> in if 1 / 2 < fsub d' f then fadd f 1 else f)
         else 0)"

datatype bound = Fin rat | PosInf

fun min_bound :: "rat \<Rightarrow> bound \<Rightarrow> rat" where
  "min_bound x (Fin b) = min x b"
| "min_bound x PosInf = x"

text \<open>
  A Python number is an \<^verbatim>\<open>int\<close> (unbounded) or a \<^verbatim>\<open>float\<close>. The tag is kept where the
  source computes an int from the dependent counts, which no bound keeps representable in
  binary64; everywhere else an int of the source is a small table constant, equal to its
  float, and the model carries its value.
\<close>

datatype pynum = PyInt int | PyFloat rat

fun to_float :: "pynum \<Rightarrow> rat" where
  "to_float (PyInt i) = fl (of_int i)"
| "to_float (PyFloat x) = x"

fun py_val :: "pynum \<Rightarrow> rat" where
  "py_val (PyInt i) = of_int i"
| "py_val (PyFloat x) = x"

fun py_add :: "pynum \<Rightarrow> pynum \<Rightarrow> pynum" where
  "py_add (PyInt i) (PyInt j) = PyInt (i + j)"
| "py_add a b = PyFloat (fadd (to_float a) (to_float b))"

fun py_round_num :: "nat \<Rightarrow> pynum \<Rightarrow> pynum" where
  "py_round_num nd (PyInt i) = PyInt i"
| "py_round_num nd (PyFloat x) = PyFloat (py_round nd x)"

section \<open>Strings\<close>

text \<open>
  A Python \<^verbatim>\<open>str\<close> is a sequence of Unicode code points; \<open>py_str\<close> gives the code points of
  an ASCII literal. \<^verbatim>\<open>str.upper()\<close> maps each code point to its upper-case expansion
  (Unicode's full case mapping, without context) and concatenates. \<open>upper_cp\<close> has every
  expansion that consists of ASCII characters only: the letters a to z, and the ten code
  points beyond ASCII with such an expansion (sharp s to SS, dotless i to I, long s to S,
  the ligatures ff, fi, fl, ffi, ffl and the two st ligatures). Every other code point is
  kept as it is: ASCII characters other than a to z are their own upper case, and beyond
  ASCII the upper case has a non-ASCII character, as the code point kept has. So \<open>upper s\<close>
  is \<^verbatim>\<open>s.upper()\<close> whenever that is ASCII, and otherwise neither is ASCII: a lookup of
  \<open>upper s\<close> in a table with ASCII keys gives what the lookup of \<^verbatim>\<open>s.upper()\<close> gives, for
  every string \<open>s\<close>.
\<close>

type_synonym pystr = "int list"

definition py_str :: "string \<Rightarrow> pystr" where
  "py_str s = map of_char s"

definition upper_cp :: "int \<Rightarrow> int list" where
  \<comment> \<open>223 sharp s, 305 dotless i, 383 long s, 64256 to 64262 the Latin ligatures\<close>
  "upper_cp c =
     (if 97 \<le> c \<and> c \<le> 122 then [c - 32]
      else if c = 223 then [83, 83]
      else if c = 305 then [73]
      else if c = 383 then [83]
      else if c = 64256 then [70, 70]
      else if c = 64257 then [70, 73]
      else if c = 64258 then [70, 76]
      else if c = 64259 then [70, 70, 73]
      else if c = 64260 then [70, 70, 76]
      else if c = 64261 then [83, 84]
      else if c = 64262 then [83, 84]
      else [c])"

definition upper :: "pystr \<Rightarrow> pystr" where
  "upper s = concat (map upper_cp s)"

section \<open>The 2024 tax tables\<close>

datatype FilingStatus = SINGLE | MARRIED_JOINT | MARRIED_SEPARATE | HEAD_HOUSEHOLD | WIDOW

definition FEDERAL_BRACKETS :: "FilingStatus \<rightharpoonup> (bound \<times> rat) list" where
  "FEDERAL_BRACKETS = [
     SINGLE \<mapsto> [(Fin 11600, fl (10 / 100)), (Fin 47150, fl (12 / 100)),
       (Fin 100525, fl (22 / 100)), (Fin 191950, fl (24 / 100)),
       (Fin 243725, fl (32 / 100)), (Fin 609350, fl (35 / 100)), (PosInf, fl (37 / 100))],
     MARRIED_JOINT \<mapsto> [(Fin 23200, fl (10 / 100)), (Fin 94300, fl (12 / 100)),
       (Fin 201050, fl (22 / 100)), (Fin 383900, fl (24 / 100)),
       (Fin 487450, fl (32 / 100)), (Fin 731200, fl (35 / 100)), (PosInf, fl (37 / 100))],
     MARRIED_SEPARATE \<mapsto> [(Fin 11600, fl (10 / 100)), (Fin 47150, fl (12 / 100)),
       (Fin 100525, fl (22 / 100)), (Fin 191950, fl (24 / 100)),
       (Fin 243725, fl (32 / 100)), (Fin 365600, fl (35 / 100)), (PosInf, fl (37 / 100))],
     HEAD_HOUSEHOLD \<mapsto> [(Fin 16550, fl (10 / 100)), (Fin 63100, fl (12 / 100)),
       (Fin 100500, fl (22 / 100)), (Fin 191950, fl (24 / 100)),
       (Fin 243700, fl (32 / 100)), (Fin 609350, fl (35 / 100)), (PosInf, fl (37 / 100))]]"

definition STANDARD_DEDUCTION :: "FilingStatus \<Rightarrow> rat" where
  \<comment> \<open>the dict has an entry for each of the five statuses, so the subscript never fails\<close>
  "STANDARD_DEDUCTION fs = (case fs of SINGLE \<Rightarrow> 14600 | MARRIED_JOINT \<Rightarrow> 29200
     | MARRIED_SEPARATE \<Rightarrow> 14600 | HEAD_HOUSEHOLD \<Rightarrow> 21900 | WIDOW \<Rightarrow> 29200)"

definition ADDITIONAL_DEDUCTION :: "FilingStatus \<rightharpoonup> rat" where
  "ADDITIONAL_DEDUCTION = [SINGLE \<mapsto> 1950, MARRIED_JOINT \<mapsto> 1550,
     MARRIED_SEPARATE \<mapsto> 1550, HEAD_HOUSEHOLD \<mapsto> 1950]"

definition LTCG_BRACKETS :: "FilingStatus \<rightharpoonup> (bound \<times> rat) list" where
  "LTCG_BRACKETS = [
     SINGLE \<mapsto> [(Fin 47025, 0), (Fin 518900, fl (15 / 100)), (PosInf, fl (20 / 100))],
     MARRIED_JOINT \<mapsto> [(Fin 94050, 0), (Fin 583750, fl (15 / 100)), (PosInf, fl (20 / 100))]]"

definition NIIT_THRESHOLD :: "FilingStatus \<rightharpoonup> rat" where
  "NIIT_THRESHOLD = [SINGLE \<mapsto> 200000, MARRIED_JOINT \<mapsto> 250000,
     MARRIED_SEPARATE \<mapsto> 125000, HEAD_HOUSEHOLD \<mapsto> 200000]"

definition SS_WAGE_BASE :: rat where
  "SS_WAGE_BASE = 168600"

definition MEDICARE_ADDITIONAL_RATE :: rat where
  "MEDICARE_ADDITIONAL_RATE = fl (9 / 1000)"

definition STATE_TAX_RATES :: "pystr \<rightharpoonup> rat" where
  "STATE_TAX_RATES = map_of [
     (py_str ''CA'', fl (133 / 1000)), (py_str ''NY'', fl (109 / 1000)), (py_str ''TX'', 0), (py_str ''FL'', 0),
     (py_str ''WA'', 0), (py_str ''NV'', 0), (py_str ''WY'', 0), (py_str ''SD'', 0), (py_str ''AK'', 0), (py_str ''TN'', 0),
     (py_str ''NH'', 0), (py_str ''NJ'', fl (1075 / 10000)), (py_str ''MA'', fl (9 / 100)),
     (py_str ''IL'', fl (495 / 10000)), (py_str ''PA'', fl (307 / 10000)), (py_str ''AZ'', fl (25 / 1000)),
     (py_str ''CO'', fl (44 / 1000)), (py_str ''GA'', fl (549 / 10000)), (py_str ''NC'', fl (525 / 10000)),
     (py_str ''VA'', fl (575 / 10000)), (py_str ''OH'', fl (399 / 10000)), (py_str ''MI'', fl (425 / 10000)),
     (py_str ''MN'', fl (985 / 10000)), (py_str ''OR'', fl (99 / 1000)), (py_str ''HI'', fl (11 / 100))]"

definition SALT_CAP :: rat where
  "SALT_CAP = 10000"

definition dict_get :: "('k \<rightharpoonup> 'v) \<Rightarrow> 'k \<Rightarrow> 'v \<Rightarrow> 'v" where
  \<comment> \<open>\<^verbatim>\<open>d.get(k, default)\<close>\<close>
  "dict_get d k dflt = (case d k of None \<Rightarrow> dflt | Some v \<Rightarrow> v)"

section \<open>Input and output records\<close>

record TaxInput =
  wages :: rat
  self_employment :: rat
  interest :: rat
  dividends_qualified :: rat
  dividends_ordinary :: rat
  short_term_gains :: rat
  long_term_gains :: rat
  rental_income :: rat
  k1_income :: rat
  other_income :: rat
  mortgage_interest :: rat
  property_tax :: rat
  state_tax_paid :: rat
  charitable :: rat
  medical :: rat
  traditional_401k :: rat
  traditional_ira :: rat
  hsa :: rat
  children_under_17 :: int
  children_17_plus :: int
  education_expenses :: rat
  filing_status :: FilingStatus
  state :: pystr
  age_65_plus :: bool
  spouse_age_65_plus :: bool

definition TaxInput_default :: TaxInput where
  \<comment> \<open>the dataclass with every field at its default\<close>
  "TaxInput_default = \<lparr> wages = 0, self_employment = 0, interest = 0,
     dividends_qualified = 0, dividends_ordinary = 0, short_term_gains = 0,
     long_term_gains = 0, rental_income = 0, k1_income = 0, other_income = 0,
     mortgage_interest = 0, property_tax = 0, state_tax_paid = 0, charitable = 0,
     medical = 0, traditional_401k = 0, traditional_ira = 0, hsa = 0,
     children_under_17 = 0, children_17_plus = 0, education_expenses = 0,
     filing_status = SINGLE, state = py_str ''CA'', age_65_plus = False,
     spouse_age_65_plus = False \<rparr>"

record Breakdown =
  bd_federal_ordinary :: rat
  bd_federal_ltcg :: rat
  bd_se_tax :: rat
  bd_niit :: rat
  bd_state_tax :: rat
  bd_credits_applied :: pynum

record TaxResult =
  gross_income :: rat
  adjustments :: rat
  agi :: rat
  deductions :: rat
  deduction_type :: string
  taxable_income :: rat
  federal_tax_ordinary :: rat
  federal_tax_ltcg :: rat
  federal_tax_total :: rat
  effective_rate :: rat
  marginal_rate :: rat
  se_tax :: rat
  se_deduction :: rat
  state_tax :: rat
  result_state :: pystr
  child_tax_credit :: pynum
  education_credits :: pynum
  total_credits :: pynum
  total_tax :: rat
  tax_after_credits :: rat
  quarterly_estimate :: rat
  breakdown :: Breakdown

section \<open>The calculators\<close>

fun federal_loop :: "rat \<Rightarrow> (bound \<times> rat) list \<Rightarrow> bound \<Rightarrow> rat \<Rightarrow> rat \<Rightarrow> rat \<times> rat" where
  \<comment> \<open>the \<^verbatim>\<open>for\<close> loop of \<^verbatim>\<open>calculate_federal_tax\<close>; the arguments after the list are
      \<^verbatim>\<open>prev_bracket\<close>, \<^verbatim>\<open>tax\<close> and \<^verbatim>\<open>marginal_rate\<close>\<close>
  "federal_loop ti [] prev tax mr = (tax, mr)"
| "federal_loop ti ((bracket_max, rate) # bs) prev tax mr =
     (case prev of
        PosInf \<Rightarrow> (tax, mr)
      | Fin p \<Rightarrow>
          if ti \<le> p then (tax, mr)
          else federal_loop ti bs bracket_max
                 (fadd tax (fmul (fsub (min_bound ti bracket_max) p) rate)) rate)"

definition calculate_federal_tax :: "rat \<Rightarrow> FilingStatus \<Rightarrow> rat \<times> rat" where
  "calculate_federal_tax ti fs =
     federal_loop ti (dict_get FEDERAL_BRACKETS fs (the (FEDERAL_BRACKETS SINGLE)))
       (Fin 0) 0 (fl (10 / 100))"

fun ltcg_loop :: "rat \<Rightarrow> rat \<Rightarrow> (bound \<times> rat) list \<Rightarrow> bound \<Rightarrow> rat \<Rightarrow> rat" where
  \<comment> \<open>the \<^verbatim>\<open>for\<close> loop of \<^verbatim>\<open>calculate_ltcg_tax\<close>: \<open>oi\<close> is \<^verbatim>\<open>ordinary_income\<close>, \<open>tot\<close> is
      \<^verbatim>\<open>total_ltcg\<close>, and the arguments after the list are \<^verbatim>\<open>prev_bracket\<close> and \<^verbatim>\<open>tax\<close>\<close>
  "ltcg_loop oi tot [] prev tax = tax"
| "ltcg_loop oi tot ((bracket_max, rate) # bs) prev tax =
     (if (case bracket_max of Fin b \<Rightarrow> b \<le> oi | PosInf \<Rightarrow> False)
      then ltcg_loop oi tot bs bracket_max tax
      else
        (let bracket_end = min_bound (fadd oi tot) bracket_max;
             tax' = (case prev of
                       PosInf \<Rightarrow> tax
                     | Fin p \<Rightarrow>
                         (let bracket_start = max oi p
                          in if bracket_start < bracket_end
                             then fadd tax (fmul (fsub bracket_end bracket_start) rate)
                             else tax))
         in if fadd oi tot \<le> bracket_end then tax'
            else ltcg_loop oi tot bs bracket_max tax'))"

definition ltcg_ordinary_income :: "rat \<Rightarrow> rat \<Rightarrow> rat \<Rightarrow> rat" where
  \<comment> \<open>\<^verbatim>\<open>ordinary_income = taxable_income - total_ltcg\<close>, the floor under the stack\<close>
  "ltcg_ordinary_income ltcg qualified_dividends ti = fsub ti (fadd ltcg qualified_dividends)"

definition calculate_ltcg_tax :: "rat \<Rightarrow> rat \<Rightarrow> rat \<Rightarrow> FilingStatus \<Rightarrow> rat" where
  "calculate_ltcg_tax ltcg qualified_dividends ti fs =
     (let total_ltcg = fadd ltcg qualified_dividends
      in if total_ltcg \<le> 0 then 0
         else ltcg_loop (ltcg_ordinary_income ltcg qualified_dividends ti) total_ltcg
                (dict_get LTCG_BRACKETS fs (the (LTCG_BRACKETS SINGLE))) (Fin 0) 0)"

definition calculate_se_tax :: "rat \<Rightarrow> rat \<times> rat" where
  "calculate_se_tax self_employment_income =
     (if self_employment_income \<le> 0 then (0, 0)
      else
        (let net_se = fmul self_employment_income (fl (9235 / 10000));
             ss_taxable = min net_se SS_WAGE_BASE;
             ss_tax = fmul ss_taxable (fl (124 / 1000));
             medicare_tax = fmul net_se (fl (29 / 1000));
             medicare_tax' = (if 200000 < net_se
                              then fadd medicare_tax
                                     (fmul (fsub net_se 200000) MEDICARE_ADDITIONAL_RATE)
                              else medicare_tax);
             total_se_tax = fadd ss_tax medicare_tax';
             se_deduction = fdiv total_se_tax 2
         in (total_se_tax, se_deduction)))"

definition calculate_niit :: "rat \<Rightarrow> rat \<Rightarrow> FilingStatus \<Rightarrow> rat" where
  "calculate_niit magi investment_income fs =
     (let threshold = dict_get NIIT_THRESHOLD fs 200000
      in if magi \<le> threshold then 0
         else fmul (min (fsub magi threshold) investment_income) (fl (38 / 1000)))"

definition calculate_child_tax_credit :: "int \<Rightarrow> int \<Rightarrow> rat \<Rightarrow> FilingStatus \<Rightarrow> pynum" where
  "calculate_child_tax_credit under_17 over_17 agi_v fs =
     (let credit = under_17 * 2000 + over_17 * 500;
          threshold = (if fs = MARRIED_JOINT then 400000 else 200000)
      in if threshold < agi_v
         then (let reduction = fmul (py_floordiv (fsub agi_v threshold) 1000) 50;
                   rest = fsub (fl (of_int credit)) reduction
               in if 0 < rest then PyFloat rest else PyInt 0)
         else PyInt credit)"

definition calculate_state_tax :: "rat \<Rightarrow> pystr \<Rightarrow> rat" where
  "calculate_state_tax ti st = fmul ti (dict_get STATE_TAX_RATES (upper st) (fl (5 / 100)))"

section \<open>The orchestrator\<close>

text \<open>
  \<^verbatim>\<open>calculate_taxes\<close> is one straight-line function; each of its local variables is a
  definition here, named after the variable, so that a statement can speak about it.
\<close>

definition gross_income_of :: "TaxInput \<Rightarrow> rat" where
  "gross_income_of i =
     fadd (fadd (fadd (fadd (fadd (fadd (fadd (fadd (fadd (wages i) (self_employment i))
       (interest i)) (dividends_qualified i)) (dividends_ordinary i)) (short_term_gains i))
       (long_term_gains i)) (rental_income i)) (k1_income i)) (other_income i)"

definition adjustments_of :: "TaxInput \<Rightarrow> rat" where
  "adjustments_of i =
     fadd (fadd (snd (calculate_se_tax (self_employment i))) (traditional_ira i)) (hsa i)"

definition agi_of :: "TaxInput \<Rightarrow> rat" where
  "agi_of i = fsub (gross_income_of i) (adjustments_of i)"

definition standard_of :: "TaxInput \<Rightarrow> rat" where
  "standard_of i =
     (let standard = STANDARD_DEDUCTION (filing_status i);
          standard' = (if age_65_plus i
                       then standard + dict_get ADDITIONAL_DEDUCTION (filing_status i) 1550
                       else standard)
      in if spouse_age_65_plus i \<and> filing_status i = MARRIED_JOINT
         then standard' + dict_get ADDITIONAL_DEDUCTION (filing_status i) 1550
         else standard')"

definition salt_of :: "TaxInput \<Rightarrow> rat" where
  "salt_of i = min (fadd (property_tax i) (state_tax_paid i)) SALT_CAP"

definition medical_deductible_of :: "TaxInput \<Rightarrow> rat" where
  "medical_deductible_of i = max 0 (fsub (medical i) (fmul (agi_of i) (fl (75 / 1000))))"

definition itemized_of :: "TaxInput \<Rightarrow> rat" where
  "itemized_of i =
     fadd (fadd (fadd (mortgage_interest i) (salt_of i)) (charitable i))
       (medical_deductible_of i)"

definition deductions_of :: "TaxInput \<Rightarrow> rat" where
  "deductions_of i =
     (if standard_of i < itemized_of i then itemized_of i else standard_of i)"

definition deduction_type_of :: "TaxInput \<Rightarrow> string" where
  "deduction_type_of i =
     (if standard_of i < itemized_of i then ''itemized'' else ''standard'')"

definition preferential_income_of :: "TaxInput \<Rightarrow> rat" where
  "preferential_income_of i = fadd (long_term_gains i) (dividends_qualified i)"

definition taxable_income_of :: "TaxInput \<Rightarrow> rat" where
  "taxable_income_of i = max 0 (fsub (agi_of i) (deductions_of i))"

definition ordinary_taxable_of :: "TaxInput \<Rightarrow> rat" where
  "ordinary_taxable_of i =
     max 0 (fsub (taxable_income_of i) (preferential_income_of i))"

definition federal_ordinary_of :: "TaxInput \<Rightarrow> rat" where
  "federal_ordinary_of i = fst (calculate_federal_tax (ordinary_taxable_of i) (filing_status i))"

definition marginal_rate_of :: "TaxInput \<Rightarrow> rat" where
  "marginal_rate_of i = snd (calculate_federal_tax (ordinary_taxable_of i) (filing_status i))"

definition federal_ltcg_of :: "TaxInput \<Rightarrow> rat" where
  "federal_ltcg_of i =
     calculate_ltcg_tax (long_term_gains i) (dividends_qualified i) (taxable_income_of i)
       (filing_status i)"

definition federal_total_of :: "TaxInput \<Rightarrow> rat" where
  "federal_total_of i = fadd (federal_ordinary_of i) (federal_ltcg_of i)"

definition investment_income_of :: "TaxInput \<Rightarrow> rat" where
  "investment_income_of i =
     fadd (fadd (fadd (fadd (fadd (interest i) (dividends_qualified i))
       (dividends_ordinary i)) (short_term_gains i)) (long_term_gains i))
       (max 0 (rental_income i))"

definition niit_of :: "TaxInput \<Rightarrow> rat" where
  "niit_of i = calculate_niit (agi_of i) (investment_income_of i) (filing_status i)"

definition state_tax_of :: "TaxInput \<Rightarrow> rat" where
  "state_tax_of i = calculate_state_tax (taxable_income_of i) (state i)"

definition child_credit_of :: "TaxInput \<Rightarrow> pynum" where
  "child_credit_of i =
     calculate_child_tax_credit (children_under_17 i) (children_17_plus i) (agi_of i)
       (filing_status i)"

definition education_credit_of :: "TaxInput \<Rightarrow> pynum" where
  \<comment> \<open>\<^verbatim>\<open>min(x, 2000)\<close> is the int 2000 when \<open>2000 < x\<close>, and the float \<open>x\<close> otherwise\<close>
  "education_credit_of i =
     (let x = fmul (education_expenses i) (fl (2 / 10))
      in if 2000 < x then PyInt 2000 else PyFloat x)"

definition total_credits_of :: "TaxInput \<Rightarrow> pynum" where
  "total_credits_of i = py_add (child_credit_of i) (education_credit_of i)"

definition total_tax_of :: "TaxInput \<Rightarrow> rat" where
  "total_tax_of i =
     fadd (fadd (fadd (federal_total_of i) (fst (calculate_se_tax (self_employment i))))
       (niit_of i)) (state_tax_of i)"

definition tax_after_credits_of :: "TaxInput \<Rightarrow> rat" where
  "tax_after_credits_of i = max 0 (fsub (total_tax_of i) (to_float (total_credits_of i)))"

definition effective_rate_of :: "TaxInput \<Rightarrow> rat" where
  "effective_rate_of i =
     (if 0 < gross_income_of i
      then fmul (fdiv (tax_after_credits_of i) (gross_income_of i)) 100
      else 0)"

definition quarterly_estimate_of :: "TaxInput \<Rightarrow> rat" where
  "quarterly_estimate_of i = fdiv (tax_after_credits_of i) 4"

definition calculate_taxes :: "TaxInput \<Rightarrow> TaxResult" where
  "calculate_taxes i =
     \<lparr> gross_income = py_round 2 (gross_income_of i),
       adjustments = py_round 2 (adjustments_of i),
       agi = py_round 2 (agi_of i),
       deductions = py_round 2 (deductions_of i),
       deduction_type = deduction_type_of i,
       taxable_income = py_round 2 (taxable_income_of i),
       federal_tax_ordinary = py_round 2 (federal_ordinary_of i),
       federal_tax_ltcg = py_round 2 (federal_ltcg_of i),
       federal_tax_total = py_round 2 (federal_total_of i),
       effective_rate = py_round 2 (effective_rate_of i),
       marginal_rate = py_round 1 (fmul (marginal_rate_of i) 100),
       se_tax = py_round 2 (fst (calculate_se_tax (self_employment i))),
       se_deduction = py_round 2 (snd (calculate_se_tax (self_employment i))),
       state_tax = py_round 2 (state_tax_of i),
       result_state = state i,
       child_tax_credit = py_round_num 2 (child_credit_of i),
       education_credits = py_round_num 2 (education_credit_of i),
       total_credits = py_round_num 2 (total_credits_of i),
       total_tax = py_round 2 (total_tax_of i),
       tax_after_credits = py_round 2 (tax_after_credits_of i),
       quarterly_estimate = py_round 2 (quarterly_estimate_of i),
       breakdown = \<lparr> bd_federal_ordinary = py_round 2 (federal_ordinary_of i),
         bd_federal_ltcg = py_round 2 (federal_ltcg_of i),
         bd_se_tax = py_round 2 (fst (calculate_se_tax (self_employment i))),
         bd_niit = py_round 2 (niit_of i),
         bd_state_tax = py_round 2 (state_tax_of i),
         bd_credits_applied = py_round_num 2 (total_credits_of i) \<rparr> \<rparr>"

section \<open>Well-formed bracket tables\<close>

text \<open>
  A bracket table is ascending from a lower bound when its upper bounds do not decrease and
  its rates are not negative.
\<close>

fun le_bound :: "bound \<Rightarrow> bound \<Rightarrow> bool" where
  "le_bound (Fin a) (Fin b) = (a \<le> b)"
| "le_bound x PosInf = True"
| "le_bound PosInf (Fin b) = False"

fun ascending :: "bound \<Rightarrow> (bound \<times> rat) list \<Rightarrow> bool" where
  "ascending prev [] = True"
| "ascending prev ((b, r) # bs) = (le_bound prev b \<and> 0 \<le> r \<and> ascending b bs)"

section \<open>Properties of the rounding\<close>

lemma rhe_of_int: "rhe (of_int n) = n"
  by (simp add: rhe_def)

lemma rhe_bounds: "\<lfloor>x\<rfloor> \<le> rhe x \<and> rhe x \<le> \<lfloor>x\<rfloor> + 1"
  by (simp add: rhe_def Let_def)

lemma rhe_mono: "x \<le> y \<Longrightarrow> rhe x \<le> rhe y"
proof -
  assume xy: "x \<le> y"
  have fm: "\<lfloor>x\<rfloor> \<le> \<lfloor>y\<rfloor>" using xy by (rule floor_mono)
  show ?thesis
  proof (cases "\<lfloor>x\<rfloor> = \<lfloor>y\<rfloor>")
    case True
    then have "x - of_int \<lfloor>x\<rfloor> \<le> y - of_int \<lfloor>y\<rfloor>" using xy by simp
    then show ?thesis using True by (auto simp: rhe_def Let_def)
  next
    case False
    then have "\<lfloor>x\<rfloor> + 1 \<le> \<lfloor>y\<rfloor>" using fm by simp
    then show ?thesis using rhe_bounds[of x] rhe_bounds[of y] by linarith
  qed
qed

lemma bitlen_pos: "0 < n \<Longrightarrow> 1 \<le> bitlen n"
  using bitlen_nonneg[of n] bitlen_eq_zero_iff[of n] by linarith

lemma ilog2_bounds:
  assumes "0 < x"
  shows "2 powi ilog2 x \<le> x \<and> x < 2 powi (ilog2 x + 1)"
proof (cases "1 \<le> x")
  case True
  define n where "n = \<lfloor>x\<rfloor>"
  define k where "k = bitlen n"
  have p: "0 < n" using True by (simp add: n_def)
  have k1: "1 \<le> k" using bitlen_pos[OF p] by (simp add: k_def)
  from bitlen_bounds[OF p]
  have b1: "2 ^ nat (k - 1) \<le> n" and b2: "n < 2 ^ nat k" by (auto simp: k_def)
  have "(2::rat) ^ nat (k - 1) = of_int (2 ^ nat (k - 1))" by simp
  also have "\<dots> \<le> of_int n" using b1 by (simp only: of_int_le_iff)
  also have "\<dots> \<le> x" by (simp add: n_def)
  finally have l: "(2::rat) ^ nat (k - 1) \<le> x" .
  have "n + 1 \<le> 2 ^ nat k" using b2 by simp
  then have cc: "(of_int (n + 1) :: rat) \<le> of_int (2 ^ nat k)" by (simp only: of_int_le_iff)
  have "x < of_int (n + 1)" unfolding n_def by linarith
  also note cc
  also have "(of_int (2 ^ nat k) :: rat) = 2 ^ nat k" by simp
  finally have u: "x < (2::rat) ^ nat k" .
  have e: "ilog2 x = k - 1" using True by (simp add: ilog2_def k_def n_def)
  show ?thesis using l u k1 unfolding e by (simp add: power_int_def)
next
  case False
  define y where "y = 1 / x"
  define c where "c = \<lceil>y\<rceil>"
  define k where "k = bitlen (c - 1)"
  have x1: "x < 1" using False by simp
  have y1: "1 < y" using assms x1 by (simp add: y_def)
  have c2: "2 \<le> c" using y1 by (simp add: c_def le_ceiling_iff)
  then have p: "0 < c - 1" by simp
  have k1: "1 \<le> k" using bitlen_pos[OF p] by (simp add: k_def)
  from bitlen_bounds[OF p]
  have b1: "2 ^ nat (k - 1) \<le> c - 1" and b2: "c - 1 < 2 ^ nat k" by (auto simp: k_def)
  have "(2::rat) ^ nat (k - 1) = of_int (2 ^ nat (k - 1))" by simp
  also have "\<dots> \<le> of_int (c - 1)" using b1 by (simp only: of_int_le_iff)
  also have "\<dots> < y" unfolding c_def by linarith
  finally have l: "(2::rat) ^ nat (k - 1) < y" .
  have "c \<le> 2 ^ nat k" using b2 by simp
  then have cc: "(of_int c :: rat) \<le> of_int (2 ^ nat k)" by (simp only: of_int_le_iff)
  have "y \<le> of_int c" unfolding c_def by linarith
  also note cc
  also have "(of_int (2 ^ nat k) :: rat) = 2 ^ nat k" by simp
  finally have u: "y \<le> (2::rat) ^ nat k" .
  have e: "ilog2 x = - k" using False by (simp add: ilog2_def k_def c_def y_def)
  have xy: "x = 1 / y" by (simp add: y_def)
  have lo: "1 / (2::rat) ^ nat k \<le> x" unfolding xy using u y1 by (simp add: frac_le)
  have hi: "x < 1 / (2::rat) ^ nat (k - 1)" unfolding xy using l by (simp add: frac_less2)
  have pk: "(2::rat) powi (- k) = 1 / 2 ^ nat k" using k1 by (simp add: power_int_def field_simps)
  have pk1: "(2::rat) powi (- k + 1) = 1 / 2 ^ nat (k - 1)"
  proof (cases "k = 1")
    case True then show ?thesis by simp
  next
    case False
    then have "- k + 1 < 0" using k1 by simp
    moreover have "nat (- (- k + 1)) = nat (k - 1)" by simp
    ultimately show ?thesis by (simp add: power_int_def field_simps)
  qed
  show ?thesis unfolding e using lo hi pk pk1 by simp
qed

lemma two_powi_pos: "0 < (2::rat) powi k"
  by (simp add: zero_less_power_int)

lemma two_powi_less_cancel: "(2::rat) powi a < 2 powi b \<Longrightarrow> a < b"
proof (rule ccontr)
  assume h: "(2::rat) powi a < 2 powi b" and n: "\<not> a < b"
  then have "b \<le> a" by simp
  then have "(2::rat) powi b \<le> 2 powi a" by (intro power_int_increasing) simp_all
  with h show False by simp
qed

lemma two_powi_mono: "a \<le> b \<Longrightarrow> (2::rat) powi a \<le> 2 powi b"
  by (intro power_int_increasing) simp_all

lemma ilog2_unique:
  assumes "0 < x" "2 powi e \<le> x" "x < 2 powi (e + 1)"
  shows "ilog2 x = e"
proof -
  from ilog2_bounds[OF assms(1)]
  have l: "2 powi ilog2 x \<le> x" and u: "x < 2 powi (ilog2 x + 1)" by auto
  have "(2::rat) powi ilog2 x < 2 powi (e + 1)" using l assms(3) by simp
  then have a: "ilog2 x < e + 1" by (rule two_powi_less_cancel)
  have "(2::rat) powi e < 2 powi (ilog2 x + 1)" using u assms(2) by simp
  then have b: "e < ilog2 x + 1" by (rule two_powi_less_cancel)
  from a b show ?thesis by simp
qed

lemma ilog2_mono:
  assumes "0 < x" "x \<le> y"
  shows "ilog2 x \<le> ilog2 y"
proof -
  have y: "0 < y" using assms by simp
  from ilog2_bounds[OF assms(1)] have l: "2 powi ilog2 x \<le> x" by auto
  from ilog2_bounds[OF y] have u: "y < 2 powi (ilog2 y + 1)" by auto
  have "(2::rat) powi ilog2 x < 2 powi (ilog2 y + 1)" using l u assms(2) by simp
  then have "ilog2 x < ilog2 y + 1" by (rule two_powi_less_cancel)
  then show ?thesis by simp
qed

lemma fl_pos_eq: "0 < x \<Longrightarrow> fl x = of_int (rhe (x / 2 powi qexp x)) * 2 powi qexp x"
  by (simp add: fl_def Let_def)

lemma fl_0: "fl 0 = 0"
  by (simp add: fl_def)

lemma fl_neg: "fl (- x) = - fl x"
  by (simp add: fl_def Let_def sgn_minus)

lemma rhe_nonneg: "0 \<le> x \<Longrightarrow> 0 \<le> rhe x"
  using rhe_mono[of 0 x] rhe_of_int[of 0] by simp

lemma fl_nonneg: "0 \<le> x \<Longrightarrow> 0 \<le> fl x"
proof (cases "x = 0")
  case True then show ?thesis by (simp add: fl_0)
next
  case False
  assume "0 \<le> x"
  with False have p: "0 < x" by simp
  have "0 \<le> x / 2 powi qexp x" using p two_powi_pos[of "qexp x"] by simp
  then have "0 \<le> rhe (x / 2 powi qexp x)" by (rule rhe_nonneg)
  then show ?thesis unfolding fl_pos_eq[OF p] using two_powi_pos[of "qexp x"] by simp
qed

lemma two_powi_split: "(2::rat) powi (q + k) = 2 powi q * 2 powi k"
  by (simp add: power_int_add)

lemma mant_le:
  assumes "0 < x"
  shows "rhe (x / 2 powi qexp x) \<le> 2 ^ 53"
proof -
  from ilog2_bounds[OF assms] have "x < 2 powi (ilog2 x + 1)" by auto
  also have "\<dots> \<le> 2 powi (qexp x + 53)" by (rule two_powi_mono) (simp add: qexp_def)
  also have "\<dots> = 2 powi qexp x * 2 ^ 53" by (simp add: two_powi_split)
  finally have "x / 2 powi qexp x \<le> of_int (2 ^ 53)"
    using two_powi_pos[of "qexp x"] by (simp add: pos_divide_le_eq mult.commute)
  then have "rhe (x / 2 powi qexp x) \<le> rhe (of_int (2 ^ 53))" by (rule rhe_mono)
  then show ?thesis by (simp only: rhe_of_int)
qed

lemma mant_ge:
  assumes "0 < x" "- 1022 \<le> ilog2 x"
  shows "2 ^ 52 \<le> rhe (x / 2 powi qexp x)"
proof -
  have q: "ilog2 x = qexp x + 52" using assms(2) by (simp add: qexp_def)
  from ilog2_bounds[OF assms(1)] have "2 powi (qexp x + 52) \<le> x" unfolding q by auto
  then have "2 powi qexp x * 2 ^ 52 \<le> x" by (simp add: two_powi_split)
  then have "of_int (2 ^ 52) \<le> x / 2 powi qexp x"
    using two_powi_pos[of "qexp x"] by (simp add: pos_le_divide_eq mult.commute)
  then have "rhe (of_int (2 ^ 52)) \<le> rhe (x / 2 powi qexp x)" by (rule rhe_mono)
  then show ?thesis by (simp only: rhe_of_int)
qed

lemma fl_upper:
  assumes "0 < x"
  shows "fl x \<le> 2 powi (qexp x + 53)"
proof -
  have "(of_int (rhe (x / 2 powi qexp x)) :: rat) \<le> of_int (2 ^ 53)"
    using mant_le[OF assms] by (simp only: of_int_le_iff)
  then have "of_int (rhe (x / 2 powi qexp x)) * 2 powi qexp x \<le> (of_int (2 ^ 53) :: rat) * 2 powi qexp x"
    using two_powi_pos[of "qexp x"] by (simp only: mult_le_cancel_right_pos)
  then show ?thesis unfolding fl_pos_eq[OF assms] by (simp add: two_powi_split mult.commute)
qed

lemma fl_lower:
  assumes "0 < x" "- 1022 \<le> ilog2 x"
  shows "2 powi (qexp x + 52) \<le> fl x"
proof -
  have "(of_int (2 ^ 52) :: rat) \<le> of_int (rhe (x / 2 powi qexp x))"
    using mant_ge[OF assms] by (simp only: of_int_le_iff)
  then have "(of_int (2 ^ 52) :: rat) * 2 powi qexp x \<le> of_int (rhe (x / 2 powi qexp x)) * 2 powi qexp x"
    using two_powi_pos[of "qexp x"] by (simp only: mult_le_cancel_right_pos)
  then show ?thesis unfolding fl_pos_eq[OF assms(1)] by (simp add: two_powi_split mult.commute)
qed

lemma fl_mono_pos:
  assumes "0 < x" "x \<le> y"
  shows "fl x \<le> fl y"
proof -
  have y: "0 < y" using assms by simp
  have qq: "qexp x \<le> qexp y" using ilog2_mono[OF assms] by (simp add: qexp_def)
  show ?thesis
  proof (cases "qexp x = qexp y")
    case True
    have "x / 2 powi qexp y \<le> y / 2 powi qexp y"
      using assms(2) two_powi_pos[of "qexp y"] by (simp add: divide_right_mono)
    then have "rhe (x / 2 powi qexp y) \<le> rhe (y / 2 powi qexp y)" by (rule rhe_mono)
    then have "(of_int (rhe (x / 2 powi qexp y)) :: rat) \<le> of_int (rhe (y / 2 powi qexp y))"
      by (simp only: of_int_le_iff)
    then show ?thesis unfolding fl_pos_eq[OF assms(1)] fl_pos_eq[OF y] True
      using two_powi_pos[of "qexp y"] by (simp only: mult_le_cancel_right_pos)
  next
    case False
    then have lt: "qexp x + 1 \<le> qexp y" using qq by simp
    then have n: "- 1022 \<le> ilog2 y" by (simp add: qexp_def max_def split: if_splits)
    have "fl x \<le> 2 powi (qexp x + 53)" by (rule fl_upper[OF assms(1)])
    also have "\<dots> \<le> 2 powi (qexp y + 52)" by (rule two_powi_mono) (use lt in simp)
    also have "\<dots> \<le> fl y" by (rule fl_lower[OF y n])
    finally show ?thesis .
  qed
qed

lemma fl_mono: "x \<le> y \<Longrightarrow> fl x \<le> fl y"
proof -
  assume xy: "x \<le> y"
  consider "0 < x" | "x \<le> 0" "0 \<le> y" | "y < 0" by linarith
  then show ?thesis
  proof cases
    case 1 then show ?thesis using xy by (rule fl_mono_pos)
  next
    case 2
    have "0 \<le> fl (- x)" using 2(1) by (intro fl_nonneg) simp
    then have "fl x \<le> 0" by (simp add: fl_neg)
    moreover have "0 \<le> fl y" using 2(2) by (rule fl_nonneg)
    ultimately show ?thesis by simp
  next
    case 3
    have "fl (- y) \<le> fl (- x)" using 3 xy by (intro fl_mono_pos) simp_all
    then show ?thesis by (simp add: fl_neg)
  qed
qed

lemma qexp_ge: "- 1074 \<le> qexp x"
  by (simp add: qexp_def)

lemma fl_repr:
  assumes n: "0 < n" "n < 2 ^ 53" and q: "- 1074 \<le> q"
  shows "fl (of_int n * 2 powi q) = of_int n * 2 powi q"
proof -
  define y :: rat where "y = of_int n * 2 powi q"
  have y: "0 < y" unfolding y_def using n(1) two_powi_pos[of q] by simp
  have "(of_int n :: rat) < of_int (2 ^ 53)" using n(2) by (simp only: of_int_less_iff)
  then have "y < of_int (2 ^ 53) * 2 powi q"
    unfolding y_def using two_powi_pos[of q] by (simp only: mult_less_cancel_right_pos)
  also have "\<dots> = 2 powi (q + 53)" by (simp add: two_powi_split mult.commute)
  finally have u: "y < 2 powi (q + 53)" .
  from ilog2_bounds[OF y] have "2 powi ilog2 y \<le> y" by auto
  with u have "(2::rat) powi ilog2 y < 2 powi (q + 53)" by simp
  then have "ilog2 y < q + 53" by (rule two_powi_less_cancel)
  then have le: "qexp y \<le> q" using q by (simp add: qexp_def)
  define d where "d = nat (q - qexp y)"
  have qd: "q = qexp y + int d" using le by (simp add: d_def)
  have "(2::rat) powi q = 2 powi qexp y * 2 powi (int d)"
    using two_powi_split[of "qexp y" "int d"] qd by simp
  then have pq: "(2::rat) powi q = 2 powi qexp y * 2 ^ d" by simp
  have yq: "y = of_int n * 2 ^ d * 2 powi qexp y"
    using y_def pq by (simp only: mult.assoc mult.commute[of "2 ^ d"])
  have nz: "(2::rat) powi qexp y \<noteq> 0" using two_powi_pos[of "qexp y"] by simp
  have "y / 2 powi qexp y = of_int n * 2 ^ d * 2 powi qexp y / 2 powi qexp y"
    using yq by simp
  also have "\<dots> = of_int n * 2 ^ d" using nz by simp
  also have "\<dots> = of_int (n * 2 ^ d)" by simp
  finally have m: "y / 2 powi qexp y = of_int (n * 2 ^ d)" .
  have "fl y = of_int (n * 2 ^ d) * 2 powi qexp y"
    using fl_pos_eq[OF y] m by (simp only: rhe_of_int)
  also have "\<dots> = of_int n * 2 ^ d * 2 powi qexp y" by simp
  also have "\<dots> = y" using yq by simp
  finally show ?thesis unfolding y_def .
qed

lemma fl_repr_top:
  assumes q: "- 1074 \<le> q"
  shows "fl (of_int (2 ^ 53) * 2 powi q) = of_int (2 ^ 53) * 2 powi q"
proof -
  have e: "(of_int (2 ^ 53) :: rat) * 2 powi q = of_int (2 ^ 52) * 2 powi (q + 1)"
    by (simp add: two_powi_split)
  have "fl (of_int (2 ^ 52) * 2 powi (q + 1)) = of_int (2 ^ 52) * 2 powi (q + 1)"
    by (rule fl_repr) (use q in simp_all)
  then show ?thesis unfolding e .
qed

lemma fl_idem_pos:
  assumes "0 < x"
  shows "fl (fl x) = fl x"
proof -
  define m where "m = rhe (x / 2 powi qexp x)"
  have f: "fl x = of_int m * 2 powi qexp x" unfolding m_def by (rule fl_pos_eq[OF assms])
  have "0 \<le> x / 2 powi qexp x" using assms two_powi_pos[of "qexp x"] by simp
  then have m0: "0 \<le> m" unfolding m_def by (rule rhe_nonneg)
  have m1: "m \<le> 2 ^ 53" unfolding m_def by (rule mant_le[OF assms])
  consider "m = 0" | "0 < m" "m < 2 ^ 53" | "m = 2 ^ 53" using m0 m1 by linarith
  then show ?thesis
  proof cases
    case 1 then show ?thesis unfolding f by (simp add: fl_0)
  next
    case 2 then show ?thesis unfolding f by (intro fl_repr qexp_ge)
  next
    case 3 then show ?thesis unfolding f by (simp only: fl_repr_top[OF qexp_ge])
  qed
qed

lemma fl_idem: "fl (fl x) = fl x"
proof -
  consider "0 < x" | "x = 0" | "x < 0" by linarith
  then show ?thesis
  proof cases
    case 1 then show ?thesis by (rule fl_idem_pos)
  next
    case 2 then show ?thesis by (simp add: fl_0)
  next
    case 3
    then have "fl (fl (- x)) = fl (- x)" by (intro fl_idem_pos) simp
    then show ?thesis by (simp add: fl_neg)
  qed
qed

lemma fl_of_int:
  assumes "\<bar>n\<bar> \<le> 2 ^ 53"
  shows "fl (of_int n) = of_int n"
proof -
  have pos: "fl (of_int k) = of_int k" if "0 < k" "k \<le> 2 ^ 53" for k :: int
  proof (cases "k = 2 ^ 53")
    case True
    show ?thesis using fl_repr_top[of 0] unfolding True by simp
  next
    case False
    then have "k < 2 ^ 53" using that by simp
    then show ?thesis using fl_repr[of k 0] that by simp
  qed
  consider "0 < n" | "n = 0" | "n < 0" by linarith
  then show ?thesis
  proof cases
    case 1 then show ?thesis using pos[of n] assms by simp
  next
    case 2 then show ?thesis by (simp add: fl_0)
  next
    case 3
    then have "fl (of_int (- n)) = of_int (- n)" using pos[of "- n"] assms by simp
    then show ?thesis by (simp add: fl_neg)
  qed
qed

section \<open>Properties of the operations\<close>

lemma fadd_mono: "a \<le> a' \<Longrightarrow> b \<le> b' \<Longrightarrow> fadd a b \<le> fadd a' b'"
  unfolding fadd_def by (rule fl_mono) simp

lemma fsub_mono: "a \<le> a' \<Longrightarrow> fsub a b \<le> fsub a' b"
  unfolding fsub_def by (rule fl_mono) simp

lemma fsub_nonneg: "b \<le> a \<Longrightarrow> 0 \<le> fsub a b"
  unfolding fsub_def by (rule fl_nonneg) simp

lemma fmul_mono: "0 \<le> r \<Longrightarrow> a \<le> a' \<Longrightarrow> fmul a r \<le> fmul a' r"
  unfolding fmul_def by (rule fl_mono) (simp add: mult_right_mono)

lemma fmul_nonneg: "0 \<le> a \<Longrightarrow> 0 \<le> r \<Longrightarrow> 0 \<le> fmul a r"
  unfolding fmul_def by (rule fl_nonneg) simp

lemma fadd_idem: "fl (fadd a b) = fadd a b"
  unfolding fadd_def by (rule fl_idem)

lemma fadd_ge: "fl t = t \<Longrightarrow> 0 \<le> s \<Longrightarrow> t \<le> fadd t s"
proof -
  assume t: "fl t = t" and s: "0 \<le> s"
  have "fl t \<le> fl (t + s)" by (rule fl_mono) (use s in simp)
  then show ?thesis unfolding fadd_def t .
qed

lemma upper_cp_letter: "97 \<le> c \<Longrightarrow> c \<le> 122 \<Longrightarrow> upper_cp c = [c - 32]"
  by (simp add: upper_cp_def)

lemma upper_cp_capital: "65 \<le> c \<Longrightarrow> c \<le> 90 \<Longrightarrow> upper_cp c = [c]"
  by (simp add: upper_cp_def)

lemma upper_cp_idem: "concat (map upper_cp (upper_cp c)) = upper_cp c"
proof (cases "97 \<le> c \<and> c \<le> 122")
  case True
  then have a: "upper_cp c = [c - 32]" by (simp add: upper_cp_letter)
  have b: "upper_cp (c - 32) = [c - 32]" using True by (intro upper_cp_capital) simp_all
  show ?thesis unfolding a using b by simp
next
  case False
  have caps: "upper_cp 70 = [70]" "upper_cp 73 = [73]" "upper_cp 76 = [76]"
    "upper_cp 83 = [83]" "upper_cp 84 = [84]"
    by (simp_all add: upper_cp_capital)
  consider "c = 223" | "c = 305" | "c = 383" | "c = 64256" | "c = 64257" | "c = 64258"
    | "c = 64259" | "c = 64260" | "c = 64261" | "c = 64262"
    | "c \<noteq> 223" "c \<noteq> 305" "c \<noteq> 383" "c \<noteq> 64256" "c \<noteq> 64257" "c \<noteq> 64258"
      "c \<noteq> 64259" "c \<noteq> 64260" "c \<noteq> 64261" "c \<noteq> 64262"
    by blast
  then show ?thesis
  proof cases
    case 11
    then have "upper_cp c = [c]" using False by (simp add: upper_cp_def)
    then show ?thesis by simp
  qed (simp_all add: upper_cp_def caps)
qed

lemma upper_append: "upper (xs @ ys) = upper xs @ upper ys"
  by (simp add: upper_def)

lemma upper_idem: "upper (upper s) = upper s"
proof (induction s)
  case Nil
  show ?case by (simp add: upper_def)
next
  case (Cons c s)
  have a: "upper (c # s) = upper_cp c @ upper s" by (simp add: upper_def)
  have b: "upper (upper_cp c) = upper_cp c" unfolding upper_def by (rule upper_cp_idem)
  show ?case unfolding a upper_append b Cons ..
qed

lemma upper_ca: "upper (py_str ''ca'') = py_str ''CA''"
  by (simp add: upper_def upper_cp_def py_str_def)

lemma upper_CA: "upper (py_str ''CA'') = py_str ''CA''"
  by (simp add: upper_def upper_cp_def py_str_def)

lemma upper_dotless_il: "upper [305, 108] = py_str ''IL''"
  by (simp add: upper_def upper_cp_def py_str_def)

lemma state_ca: "STATE_TAX_RATES (py_str ''CA'') = Some (fl (133 / 1000))"
  by (simp add: STATE_TAX_RATES_def py_str_def)

lemma state_il: "STATE_TAX_RATES (py_str ''IL'') = Some (fl (495 / 10000))"
  by (simp add: STATE_TAX_RATES_def py_str_def)

lemma state_ca_lower: "STATE_TAX_RATES (py_str ''ca'') = None"
  by (simp add: STATE_TAX_RATES_def py_str_def)

lemma state_known:
  "STATE_TAX_RATES (upper s) = Some r \<Longrightarrow> calculate_state_tax t s = fmul t r"
  by (simp add: calculate_state_tax_def dict_get_def)

lemma state_upper: "calculate_state_tax t s = calculate_state_tax t (upper s)"
  by (simp add: calculate_state_tax_def upper_idem)

lemma state_ny:
  "STATE_TAX_RATES (upper (py_str ''ny'')) = Some (fl (109 / 1000))"
  by (simp add: STATE_TAX_RATES_def upper_def upper_cp_def py_str_def)

section \<open>Claims\<close>

text \<open>
  C10. For every taxable income \<open>t\<close> and every state string \<open>s\<close>, the state tax of \<open>s\<close>
  is the state tax of \<open>upper s\<close>: the lookup ignores case. So a code whose upper-cased form
  is a key of the table gets that key's rate, whatever its case: the lowercase \<open>ca\<close>, itself
  no key, gets California's 0.133 and not the 5 percent fallback, and \<open>[305, 108]\<close>
  (dotless i, l), whose upper case is \<open>IL\<close>, gets the rate of Illinois.
\<close>

theorem C10_state_lookup_case_insensitive:
  "calculate_state_tax t s = calculate_state_tax t (upper s)
   \<and> (STATE_TAX_RATES (upper s) = Some r \<longrightarrow> calculate_state_tax t s = fmul t r)
   \<and> STATE_TAX_RATES (py_str ''ca'') = None
   \<and> STATE_TAX_RATES (py_str ''CA'') = Some (fl (133 / 1000))
   \<and> calculate_state_tax t (py_str ''ca'') = fmul t (fl (133 / 1000))
   \<and> calculate_state_tax t (py_str ''ca'') = calculate_state_tax t (py_str ''CA'')
   \<and> calculate_state_tax t [305, 108] = fmul t (fl (495 / 10000))"
proof -
  have ca: "calculate_state_tax t (py_str ''ca'') = fmul t (fl (133 / 1000))"
    by (rule state_known) (simp only: upper_ca state_ca)
  have CA: "calculate_state_tax t (py_str ''CA'') = fmul t (fl (133 / 1000))"
    by (rule state_known) (simp only: upper_CA state_ca)
  have il: "calculate_state_tax t [305, 108] = fmul t (fl (495 / 10000))"
    by (rule state_known) (simp only: upper_dotless_il state_il)
  show ?thesis
    using state_upper [of t s] state_known [of s r t] state_ca_lower state_ca ca CA il
    by simp
qed

theorem C10_state_lookup_case_insensitive_witness:
  "STATE_TAX_RATES (upper (py_str ''ny'')) = Some (fl (109 / 1000))
   \<and> calculate_state_tax 1000 (py_str ''ny'') = fmul 1000 (fl (109 / 1000))"
  using C10_state_lookup_case_insensitive [of 1000 "py_str ''ny''" "fl (109 / 1000)"] state_ny
  by blast

lemma py_round_0: "py_round nd 0 = 0"
  by (simp add: py_round_def rhe_def fl_0)

text \<open>
  C5. A single filer with ordinary taxable income 50,000 under the 2024 single brackets:
  \<open>calculate_federal_tax\<close> returns the tax 6,053, the sum of the three slices 1,160, 4,266
  and 627, and the marginal rate 0.22.
\<close>

theorem C5_scenario_ordinary_50000:
  "calculate_federal_tax 50000 SINGLE = (6053, fl (22 / 100))
   \<and> fmul (fsub 11600 0) (fl (10 / 100)) = 1160
   \<and> fmul (fsub 47150 11600) (fl (12 / 100)) = 4266
   \<and> fmul (fsub 50000 47150) (fl (22 / 100)) = 627
   \<and> fadd (fadd (fadd 0 1160) 4266) 627 = 6053"
  by code_simp

lemma ltcg_scenario_B: "calculate_ltcg_tax 60000 0 60000 SINGLE = 194625 / 100"
  by code_simp

lemma ltcg_nonpositive:
  assumes "ltcg + qd \<le> 0"
  shows "calculate_ltcg_tax ltcg qd ti fs = 0"
proof -
  have "fl (ltcg + qd) \<le> fl 0" using assms by (rule fl_mono)
  then have "fadd ltcg qd \<le> 0" by (simp add: fadd_def fl_0)
  then show ?thesis by (simp add: calculate_ltcg_tax_def Let_def)
qed

text \<open>
  C4. A single filer whose taxable income of 60,000 is all long-term gains (ordinary floor
  0): the stacking evaluator returns 1,946.25, the stack straddling the 0 / 15 percent
  boundary at 47,025. And for every input with
  \<open>long_term_gains + dividends_qualified \<le> 0\<close> it returns 0.
\<close>

theorem C4_preferential_stack:
  "calculate_ltcg_tax 60000 0 60000 SINGLE = 194625 / 100
   \<and> (ltcg + qd \<le> 0 \<longrightarrow> calculate_ltcg_tax ltcg qd ti fs = 0)"
  using ltcg_scenario_B ltcg_nonpositive by blast

theorem C4_preferential_stack_witness:
  "calculate_ltcg_tax 60000 0 60000 SINGLE = 194625 / 100
   \<and> (- 5) + 3 \<le> (0::rat) \<and> calculate_ltcg_tax (- 5) 3 1000 MARRIED_JOINT = 0"
  using C4_preferential_stack [of "- 5" 3 1000 MARRIED_JOINT] by simp

lemma se_scenario_C:
  "calculate_se_tax 100000 = (fl (1412955 / 100), fdiv (fl (1412955 / 100)) 2)
   \<and> fmul 100000 (fl (9235 / 10000)) = 92350
   \<and> fmul 92350 (fl (124 / 1000)) = fl (1145140 / 100)
   \<and> fmul 92350 (fl (29 / 1000)) = fl (267815 / 100)"
  by code_simp

lemma se_deduction_field:
  "se_deduction (calculate_taxes i) = py_round 2 (snd (calculate_se_tax (self_employment i)))"
  by (simp add: calculate_taxes_def)

lemma se_deduction_rounded:
  "py_round 2 (fdiv (fl (1412955 / 100)) 2) = fl (706477 / 100)
   \<and> fl (706477 / 100) \<noteq> fl (706478 / 100)
   \<and> fdiv (fl (1412955 / 100)) 2 < 7064775 / 1000"
  by code_simp

lemma se_deduction_100000:
  "se_deduction (calculate_taxes (TaxInput_default\<lparr>self_employment := 100000\<rparr>))
     = fl (706477 / 100)"
proof -
  have "snd (calculate_se_tax 100000) = fdiv (fl (1412955 / 100)) 2"
    using se_scenario_C by simp
  then show ?thesis
    using se_deduction_rounded by (simp add: se_deduction_field TaxInput_default_def)
qed

lemma se_nonpositive: "x \<le> 0 \<Longrightarrow> calculate_se_tax x = (0, 0)"
  by (simp add: calculate_se_tax_def)

text \<open>
  C2, as stated, fails on the rounded field. For self-employment income 100,000 the
  deduction \<open>se_tax / 2\<close> is the binary64 value next below 7,064.775, so \<^verbatim>\<open>round(..., 2)\<close>
  stores 7,064.77 in the field \<open>se_deduction\<close> of the result, not 7,064.78.
\<close>

theorem C2_se_deduction_counterexample:
  "se_deduction (calculate_taxes (TaxInput_default\<lparr>self_employment := 100000\<rparr>))
     \<noteq> fl (706478 / 100)"
  using se_deduction_100000 se_deduction_rounded by simp

text \<open>
  C2, amended. For self-employment income 100,000, \<open>calculate_se_tax\<close> returns
  \<open>se_tax\<close> = 14,129.55 (net 92,350; Social-Security portion 11,451.40; Medicare portion
  2,678.15) and the deduction \<open>se_tax / 2\<close>, a binary64 value just below 7,064.775, which
  the two-decimal field \<open>se_deduction\<close> of the result holds as 7,064.77. For every
  self-employment income \<open>\<le> 0\<close> both are 0. A decimal such as 14,129.55 stands for the
  binary64 value nearest to it, \<open>fl (1412955 / 100)\<close>.
\<close>

theorem C2_self_employment_tax:
  "calculate_se_tax 100000 = (fl (1412955 / 100), fdiv (fl (1412955 / 100)) 2)
   \<and> fmul 100000 (fl (9235 / 10000)) = 92350
   \<and> fmul 92350 (fl (124 / 1000)) = fl (1145140 / 100)
   \<and> fmul 92350 (fl (29 / 1000)) = fl (267815 / 100)
   \<and> fdiv (fl (1412955 / 100)) 2 < 7064775 / 1000
   \<and> se_deduction (calculate_taxes (TaxInput_default\<lparr>self_employment := 100000\<rparr>))
       = fl (706477 / 100)
   \<and> (x \<le> 0 \<longrightarrow> calculate_se_tax x = (0, 0))"
  using se_scenario_C se_deduction_rounded se_deduction_100000 se_nonpositive [of x]
  by blast

theorem C2_self_employment_tax_witness:
  "(- 3 :: rat) \<le> 0 \<and> calculate_se_tax (- 3) = (0, 0)"
  using C2_self_employment_tax [of "- 3"] by simp

lemma federal_widow: "FEDERAL_BRACKETS WIDOW = None"
  by (simp add: FEDERAL_BRACKETS_def)

lemma dict_get_missing:
  "d k = None \<Longrightarrow> d k0 \<noteq> None \<Longrightarrow> dict_get d k (the (d k0)) = dict_get d k0 (the (d k0))"
  by (auto simp: dict_get_def)

lemma federal_single: "FEDERAL_BRACKETS SINGLE \<noteq> None"
  by (simp add: FEDERAL_BRACKETS_def)

lemma ltcg_single: "LTCG_BRACKETS SINGLE \<noteq> None"
  by (simp add: LTCG_BRACKETS_def)

lemma federal_missing:
  assumes "FEDERAL_BRACKETS fs = None"
  shows "calculate_federal_tax x fs = calculate_federal_tax x SINGLE"
proof -
  have "dict_get FEDERAL_BRACKETS fs (the (FEDERAL_BRACKETS SINGLE))
      = dict_get FEDERAL_BRACKETS SINGLE (the (FEDERAL_BRACKETS SINGLE))"
    using assms federal_single by (rule dict_get_missing)
  then show ?thesis unfolding calculate_federal_tax_def by (simp only:)
qed

lemma ltcg_missing:
  assumes "LTCG_BRACKETS fs = None"
  shows "calculate_ltcg_tax l q t fs = calculate_ltcg_tax l q t SINGLE"
proof -
  have "dict_get LTCG_BRACKETS fs (the (LTCG_BRACKETS SINGLE))
      = dict_get LTCG_BRACKETS SINGLE (the (LTCG_BRACKETS SINGLE))"
    using assms ltcg_single by (rule dict_get_missing)
  then show ?thesis unfolding calculate_ltcg_tax_def by (simp only:)
qed

lemma ltcg_absent:
  "LTCG_BRACKETS WIDOW = None \<and> LTCG_BRACKETS MARRIED_SEPARATE = None
   \<and> LTCG_BRACKETS HEAD_HOUSEHOLD = None"
  by (simp add: LTCG_BRACKETS_def)

lemma state_missing:
  "STATE_TAX_RATES (upper s) = None \<Longrightarrow> calculate_state_tax t s = fmul t (fl (5 / 100))"
  by (simp add: calculate_state_tax_def dict_get_def)

text \<open>
  C9. For every filing status absent from a bracket table (\<open>WIDOW\<close> is absent
  from both), the bracket computation gives the same result as for \<open>SINGLE\<close>; and for every
  state code not present in the rate table, the lookup ignoring case (the upper-cased
  code is no key), the state tax is
  \<open>taxable_income\<close> times 0.05.
\<close>

theorem C9_fallbacks:
  "(FEDERAL_BRACKETS fs = None \<longrightarrow>
      calculate_federal_tax x fs = calculate_federal_tax x SINGLE)
   \<and> (LTCG_BRACKETS fs = None \<longrightarrow>
      calculate_ltcg_tax l q t fs = calculate_ltcg_tax l q t SINGLE)
   \<and> FEDERAL_BRACKETS WIDOW = None \<and> LTCG_BRACKETS WIDOW = None
   \<and> LTCG_BRACKETS MARRIED_SEPARATE = None \<and> LTCG_BRACKETS HEAD_HOUSEHOLD = None
   \<and> (STATE_TAX_RATES (upper s) = None \<longrightarrow>
      calculate_state_tax ti s = fmul ti (fl (5 / 100)))"
  using federal_missing [of fs x] ltcg_missing [of fs l q t] federal_widow ltcg_absent
    state_missing [of s ti]
  by blast

lemma upper_zz: "STATE_TAX_RATES (upper (py_str ''zz'')) = None"
  by (simp add: STATE_TAX_RATES_def upper_def upper_cp_def py_str_def)

theorem C9_fallbacks_witness:
  "FEDERAL_BRACKETS WIDOW = None
   \<and> calculate_federal_tax 50000 WIDOW = calculate_federal_tax 50000 SINGLE
   \<and> LTCG_BRACKETS WIDOW = None
   \<and> calculate_ltcg_tax 60000 0 60000 WIDOW = calculate_ltcg_tax 60000 0 60000 SINGLE
   \<and> STATE_TAX_RATES (upper (py_str ''zz'')) = None
   \<and> calculate_state_tax 1000 (py_str ''zz'') = fmul 1000 (fl (5 / 100))"
  using C9_fallbacks [of WIDOW 50000 60000 0 60000 "py_str ''zz''" 1000] upper_zz by simp

lemma standard_amount:
  "standard_of i =
     (case filing_status i of SINGLE \<Rightarrow> 14600 | MARRIED_JOINT \<Rightarrow> 29200
      | MARRIED_SEPARATE \<Rightarrow> 14600 | HEAD_HOUSEHOLD \<Rightarrow> 21900 | WIDOW \<Rightarrow> 29200)
     + (if age_65_plus i
        then (case filing_status i of SINGLE \<Rightarrow> 1950 | MARRIED_JOINT \<Rightarrow> 1550
              | MARRIED_SEPARATE \<Rightarrow> 1550 | HEAD_HOUSEHOLD \<Rightarrow> 1950 | WIDOW \<Rightarrow> 1550)
        else 0)
     + (if spouse_age_65_plus i \<and> filing_status i = MARRIED_JOINT then 1550 else 0)"
  by (cases "filing_status i")
    (simp_all add: standard_of_def STANDARD_DEDUCTION_def ADDITIONAL_DEDUCTION_def
      dict_get_def Let_def)

lemma deduction_fields:
  "deductions (calculate_taxes i) = py_round 2 (deductions_of i)
   \<and> deduction_type (calculate_taxes i) = deduction_type_of i"
  by (simp add: calculate_taxes_def)

text \<open>
  C8. For every input, the deductions chosen by the orchestrator are the larger of the
  standard amount with its age add-ons and the itemized amount. The standard amount is the
  table value of the filing status, plus the add-on of the status (1,550 for a status
  without an entry) when the taxpayer is 65 or older, plus 1,550 when the spouse is 65 or
  older and the status is \<open>MARRIED_JOINT\<close>. Itemized is
  mortgage interest plus \<open>min (property_tax + state_tax_paid) 10000\<close> plus charitable plus
  \<open>max 0 (medical - agi * 0.075)\<close>; the type is \<open>''itemized''\<close> exactly when itemized is
  strictly greater than standard, and \<open>''standard''\<close> otherwise. The result record holds
  the chosen amount rounded to two decimals, and the type.
\<close>

theorem C8_deduction_choice:
  "deductions_of i = max (standard_of i) (itemized_of i)
   \<and> standard_of i =
       (case filing_status i of SINGLE \<Rightarrow> 14600 | MARRIED_JOINT \<Rightarrow> 29200
        | MARRIED_SEPARATE \<Rightarrow> 14600 | HEAD_HOUSEHOLD \<Rightarrow> 21900 | WIDOW \<Rightarrow> 29200)
       + (if age_65_plus i
          then (case filing_status i of SINGLE \<Rightarrow> 1950 | MARRIED_JOINT \<Rightarrow> 1550
                | MARRIED_SEPARATE \<Rightarrow> 1550 | HEAD_HOUSEHOLD \<Rightarrow> 1950 | WIDOW \<Rightarrow> 1550)
          else 0)
       + (if spouse_age_65_plus i \<and> filing_status i = MARRIED_JOINT then 1550 else 0)
   \<and> itemized_of i =
       fadd (fadd (fadd (mortgage_interest i)
         (min (fadd (property_tax i) (state_tax_paid i)) 10000)) (charitable i))
         (max 0 (fsub (medical i) (fmul (agi_of i) (fl (75 / 1000)))))
   \<and> (deduction_type_of i = ''itemized'' \<longleftrightarrow> standard_of i < itemized_of i)
   \<and> (deduction_type_of i = ''standard'' \<longleftrightarrow> \<not> standard_of i < itemized_of i)
   \<and> deductions (calculate_taxes i) = py_round 2 (deductions_of i)
   \<and> deduction_type (calculate_taxes i) = deduction_type_of i"
proof -
  have "deductions_of i = max (standard_of i) (itemized_of i)"
    by (simp add: deductions_of_def max_def)
  moreover have "itemized_of i =
       fadd (fadd (fadd (mortgage_interest i)
         (min (fadd (property_tax i) (state_tax_paid i)) 10000)) (charitable i))
         (max 0 (fsub (medical i) (fmul (agi_of i) (fl (75 / 1000)))))"
    by (simp add: itemized_of_def salt_of_def medical_deductible_of_def SALT_CAP_def)
  moreover have "deduction_type_of i = ''itemized'' \<longleftrightarrow> standard_of i < itemized_of i"
    by (simp add: deduction_type_of_def)
  moreover have "deduction_type_of i = ''standard'' \<longleftrightarrow> \<not> standard_of i < itemized_of i"
    by (simp add: deduction_type_of_def)
  ultimately show ?thesis
    using standard_amount [of i] deduction_fields [of i] by blast
qed

lemma itemized_example:
  "standard_of (TaxInput_default\<lparr>mortgage_interest := 20000, property_tax := 12000\<rparr>) = 14600
   \<and> itemized_of (TaxInput_default\<lparr>mortgage_interest := 20000, property_tax := 12000\<rparr>)
       = 30000"
  by code_simp

theorem C8_deduction_choice_witness:
  "deductions_of (TaxInput_default\<lparr>mortgage_interest := 20000, property_tax := 12000\<rparr>)
     = 30000
   \<and> deduction_type (calculate_taxes
        (TaxInput_default\<lparr>mortgage_interest := 20000, property_tax := 12000\<rparr>))
       = ''itemized''"
  using C8_deduction_choice
    [of "TaxInput_default\<lparr>mortgage_interest := 20000, property_tax := 12000\<rparr>"]
    itemized_example
  by simp

lemma slice_nonneg: "le_bound (Fin p) b \<Longrightarrow> p < a \<Longrightarrow> 0 \<le> fsub (min_bound a b) p"
  by (cases b) (auto intro: fsub_nonneg)

lemma min_bound_mono: "a1 \<le> a2 \<Longrightarrow> min_bound a1 b \<le> min_bound a2 b"
  by (cases b) (auto simp: min_def)

lemma federal_step_ge:
  assumes "le_bound (Fin p) b" "0 \<le> r" "p < a" "fl t = t"
  shows "t \<le> fadd t (fmul (fsub (min_bound a b) p) r)"
proof -
  have "0 \<le> fsub (min_bound a b) p" using assms(1,3) by (rule slice_nonneg)
  then have "0 \<le> fmul (fsub (min_bound a b) p) r" using assms(2) by (rule fmul_nonneg)
  with assms(4) show ?thesis by (rule fadd_ge)
qed

lemma federal_loop_ge:
  "ascending prev bs \<Longrightarrow> fl t = t \<Longrightarrow> t \<le> fst (federal_loop a bs prev t mr)"
proof (induction bs arbitrary: prev t mr)
  case Nil
  show ?case by simp
next
  case (Cons x bs)
  obtain b r where x: "x = (b, r)" by (cases x)
  show ?case
  proof (cases prev)
    case PosInf
    then show ?thesis by (simp add: x)
  next
    case (Fin p)
    show ?thesis
    proof (cases "a \<le> p")
      case True
      then show ?thesis by (simp add: x Fin)
    next
      case False
      define t' where "t' = fadd t (fmul (fsub (min_bound a b) p) r)"
      have asc: "le_bound (Fin p) b" "0 \<le> r" "ascending b bs"
        using Cons.prems(1) by (simp_all add: x Fin)
      have "t \<le> t'" unfolding t'_def
        using asc(1,2) False Cons.prems(2) by (intro federal_step_ge) simp_all
      also have "t' \<le> fst (federal_loop a bs b t' r)"
        by (rule Cons.IH [OF asc(3)]) (simp add: t'_def fadd_idem)
      finally show ?thesis using False by (simp add: x Fin t'_def)
    qed
  qed
qed

lemma federal_loop_mono:
  "ascending prev bs \<Longrightarrow> a1 \<le> a2 \<Longrightarrow> t1 \<le> t2 \<Longrightarrow> fl t1 = t1 \<Longrightarrow> fl t2 = t2 \<Longrightarrow>
   fst (federal_loop a1 bs prev t1 m1) \<le> fst (federal_loop a2 bs prev t2 m2)"
proof (induction bs arbitrary: prev t1 t2 m1 m2)
  case Nil
  then show ?case by simp
next
  case (Cons x bs)
  obtain b r where x: "x = (b, r)" by (cases x)
  show ?case
  proof (cases prev)
    case PosInf
    then show ?thesis using Cons.prems(3) by (simp add: x)
  next
    case (Fin p)
    have asc: "le_bound (Fin p) b" "0 \<le> r" "ascending b bs"
      using Cons.prems(1) by (simp_all add: x Fin)
    define u1 where "u1 = fadd t1 (fmul (fsub (min_bound a1 b) p) r)"
    define u2 where "u2 = fadd t2 (fmul (fsub (min_bound a2 b) p) r)"
    consider "a2 \<le> p" | "a1 \<le> p" "p < a2" | "p < a1" by linarith
    then show ?thesis
    proof cases
      case 1
      then have "a1 \<le> p" using Cons.prems(2) by simp
      then show ?thesis using 1 Cons.prems(3) by (simp add: x Fin)
    next
      case 2
      have "t2 \<le> u2" unfolding u2_def
        using asc(1,2) 2(2) Cons.prems(5) by (intro federal_step_ge) simp_all
      also have "u2 \<le> fst (federal_loop a2 bs b u2 r)"
        by (rule federal_loop_ge [OF asc(3)]) (simp add: u2_def fadd_idem)
      finally have "t1 \<le> fst (federal_loop a2 bs b u2 r)" using Cons.prems(3) by simp
      then show ?thesis using 2 by (simp add: x Fin u2_def)
    next
      case 3
      then have p2: "p < a2" using Cons.prems(2) by simp
      have "fsub (min_bound a1 b) p \<le> fsub (min_bound a2 b) p"
        by (intro fsub_mono min_bound_mono Cons.prems(2))
      then have "fmul (fsub (min_bound a1 b) p) r \<le> fmul (fsub (min_bound a2 b) p) r"
        using asc(2) by (intro fmul_mono) simp_all
      then have u: "u1 \<le> u2" unfolding u1_def u2_def
        using Cons.prems(3) by (intro fadd_mono) simp_all
      have "fst (federal_loop a1 bs b u1 r) \<le> fst (federal_loop a2 bs b u2 r)"
        by (rule Cons.IH [OF asc(3) Cons.prems(2) u]) (simp_all add: u1_def u2_def fadd_idem)
      then show ?thesis using 3 p2 by (simp add: x Fin u1_def u2_def)
    qed
  qed
qed

lemma federal_tables_ascending:
  "ascending (Fin 0) (dict_get FEDERAL_BRACKETS fs (the (FEDERAL_BRACKETS SINGLE)))"
  by (cases fs) (simp_all add: FEDERAL_BRACKETS_def dict_get_def fl_nonneg)

lemma federal_tax_mono:
  assumes "a1 \<le> a2"
  shows "fst (calculate_federal_tax a1 fs) \<le> fst (calculate_federal_tax a2 fs)"
  unfolding calculate_federal_tax_def
  by (rule federal_loop_mono [OF federal_tables_ascending assms]) (simp_all add: fl_0)

lemma federal_tax_zero: "calculate_federal_tax 0 fs = (0, fl (10 / 100))"
  using federal_tables_ascending [of fs]
  by (cases "dict_get FEDERAL_BRACKETS fs (the (FEDERAL_BRACKETS SINGLE))")
    (auto simp: calculate_federal_tax_def)

text \<open>
  C6. For every filing status and all amounts \<open>0 \<le> a1 \<le> a2\<close>, the ordinary bracket tax
  of \<open>a1\<close> is at most that of \<open>a2\<close>, and the tax of 0 is 0. Every rounding of the loop is
  monotone, so the binary arithmetic keeps the order.
\<close>

theorem C6_bracket_monotone:
  "(0 \<le> a1 \<and> a1 \<le> a2 \<longrightarrow>
      fst (calculate_federal_tax a1 fs) \<le> fst (calculate_federal_tax a2 fs))
   \<and> fst (calculate_federal_tax 0 fs) = 0"
  using federal_tax_mono [of a1 a2 fs] federal_tax_zero [of fs] by simp

theorem C6_bracket_monotone_witness:
  "(0::rat) \<le> 40000 \<and> (40000::rat) \<le> 50000
   \<and> fst (calculate_federal_tax 40000 SINGLE) \<le> fst (calculate_federal_tax 50000 SINGLE)"
  using C6_bracket_monotone [of 40000 50000 SINGLE] by simp

lemma fl_of_int_nonneg: "0 \<le> n \<Longrightarrow> n \<le> 2 ^ 53 \<Longrightarrow> fl (of_int n) = of_int n"
  by (rule fl_of_int) simp

lemma floordiv_1000_exact:
  assumes "0 \<le> x" "x < 2 ^ 53"
  shows "py_floordiv x 1000 = of_int \<lfloor>x / 1000\<rfloor>"
proof -
  define n where "n = \<lfloor>x / 1000\<rfloor>"
  have n0: "0 \<le> n" unfolding n_def using assms(1) by simp
  have "of_int n \<le> x / 1000" unfolding n_def by (rule of_int_floor_le)
  then have "of_int n * 1000 \<le> x" by (simp add: pos_le_divide_eq)
  then have nx: "of_int (1000 * n) \<le> x" by (simp add: mult.commute)
  have "of_int (1000 * n) < (2::rat) ^ 53" using nx assms(2) by simp
  then have "of_int (1000 * n) < (of_int (2 ^ 53) :: rat)" by simp
  then have b: "1000 * n < 2 ^ 53" by (simp only: of_int_less_iff)
  have m: "py_fmod x 1000 = x - of_int (1000 * n)"
    using assms(1) by (simp add: py_fmod_def n_def)
  have mpos: "0 \<le> py_fmod x 1000" unfolding m using nx by simp
  have s: "fsub x (py_fmod x 1000) = of_int (1000 * n)"
    unfolding fsub_def m using n0 b by (simp add: fl_of_int_nonneg del: of_int_mult)
  have d: "fdiv (fsub x (py_fmod x 1000)) 1000 = of_int n"
    unfolding s fdiv_def using n0 b by (simp add: fl_of_int_nonneg)
  have z: "fsub (of_int n) (of_int n) = 0" by (simp add: fsub_def fl_0)
  show ?thesis
    unfolding py_floordiv_def Let_def d n_def [symmetric]
    using mpos z by (simp add: fsub_def fl_0)
qed

lemma sub_int_exact:
  assumes a: "fl a = a" "a < 2 ^ 53" and k: "0 \<le> k" "of_int k < a"
  shows "fl (a - of_int k) = a - of_int k"
proof (cases "k = 0")
  case True
  then show ?thesis using a(1) by simp
next
  case False
  then have k1: "1 \<le> k" using k(1) by simp
  have "(0::rat) \<le> of_int k" using k(1) by simp
  then have pos: "0 < a" using k(2) by linarith
  define q where "q = qexp a"
  define M where "M = rhe (a / 2 powi q)"
  have aM: "a = of_int M * 2 powi q"
    using fl_pos_eq [OF pos] a(1) by (simp add: M_def q_def)
  have M53: "M \<le> 2 ^ 53" unfolding M_def q_def by (rule mant_le [OF pos])
  from ilog2_bounds [OF pos] have "2 powi ilog2 a \<le> a" by auto
  then have "(2::rat) powi ilog2 a < 2 powi 53" using a(2) by simp
  then have "ilog2 a < 53" by (rule two_powi_less_cancel)
  then have q0: "q \<le> 0" by (simp add: q_def qexp_def)
  define d where "d = nat (- q)"
  have "(2::rat) powi (q + int d) = 2 powi q * 2 powi (int d)" by (rule two_powi_split)
  moreover have "q + int d = 0" using q0 by (simp add: d_def)
  ultimately have one: "(2::rat) powi q * 2 ^ d = 1" by simp
  have kq: "(of_int k :: rat) = of_int (k * 2 ^ d) * 2 powi q"
  proof -
    have "(of_int (k * 2 ^ d) :: rat) * 2 powi q = of_int k * (2 powi q * 2 ^ d)" by simp
    then show ?thesis unfolding one by simp
  qed
  define N where "N = M - k * 2 ^ d"
  have diff: "a - of_int k = of_int N * 2 powi q"
  proof -
    have "a - of_int k = of_int M * 2 powi q - of_int (k * 2 ^ d) * 2 powi q"
      using aM kq by simp
    also have "\<dots> = of_int N * 2 powi q" unfolding N_def by (simp add: algebra_simps)
    finally show ?thesis .
  qed
  have "0 < a - of_int k" using k(2) by simp
  then have "0 < (of_int N :: rat) * 2 powi q" unfolding diff .
  then have "0 < (of_int N :: rat)" using two_powi_pos [of q] by (simp add: zero_less_mult_iff)
  then have Npos: "0 < N" by simp
  have "0 < k * 2 ^ d" using k1 by simp
  then have Nlt: "N < 2 ^ 53" using M53 unfolding N_def by linarith
  have "fl (of_int N * 2 powi q) = of_int N * 2 powi q"
    using Npos Nlt by (rule fl_repr) (simp add: q_def qexp_ge)
  then show ?thesis unfolding diff .
qed


lemma child_credit_formula:
  "py_val (calculate_child_tax_credit u v a fs) =
     (if (if fs = MARRIED_JOINT then 400000 else 200000) < a
      then max 0 (fsub (fl (of_int (u * 2000 + v * 500)))
             (fmul (py_floordiv
                (fsub a (if fs = MARRIED_JOINT then 400000 else 200000)) 1000) 50))
      else of_int (u * 2000 + v * 500))"
  by (simp add: calculate_child_tax_credit_def Let_def max_def)

lemma child_credit_reduced:
  assumes a: "fl a = a" "a < 2 ^ 53" "of_int T < a" and T: "0 \<le> T"
    and c: "0 \<le> c" "c \<le> 2 ^ 53"
  shows "fsub (fl (of_int c)) (fmul (py_floordiv (fsub a (of_int T)) 1000) 50)
       = of_int c - of_int \<lfloor>(a - of_int T) / 1000\<rfloor> * 50"
proof -
  define x where "x = a - of_int T"
  define n where "n = \<lfloor>x / 1000\<rfloor>"
  have x0: "0 \<le> x" unfolding x_def using a(3) by simp
  have "(0::rat) \<le> of_int T" using T by simp
  then have x53: "x < 2 ^ 53" unfolding x_def using a(2) by linarith
  have sx: "fsub a (of_int T) = x"
    unfolding fsub_def x_def using a(1,2) T a(3) by (rule sub_int_exact)
  have fd: "py_floordiv x 1000 = of_int n"
    unfolding n_def using x0 x53 by (rule floordiv_1000_exact)
  have n0: "0 \<le> n" unfolding n_def using x0 by simp
  have "of_int n \<le> x / 1000" unfolding n_def by (rule of_int_floor_le)
  then have "of_int n * 1000 \<le> x" by (simp add: pos_le_divide_eq)
  then have "(of_int (n * 1000) :: rat) < of_int (2 ^ 53)" using x53 by simp
  then have n53: "n * 1000 < 2 ^ 53" by (simp only: of_int_less_iff)
  have r53: "n * 50 \<le> 2 ^ 53" using n53 n0 by linarith
  have fm: "fmul (of_int n) 50 = of_int (n * 50)"
  proof -
    have "fmul (of_int n) 50 = fl (of_int (n * 50))" by (simp add: fmul_def)
    also have "\<dots> = of_int (n * 50)" using n0 r53 by (intro fl_of_int_nonneg) simp_all
    finally show ?thesis .
  qed
  have fc: "fl (of_int c) = of_int c" using c by (rule fl_of_int_nonneg)
  have "\<bar>c - n * 50\<bar> \<le> 2 ^ 53" using c n0 r53 by linarith
  then have "fl (of_int (c - n * 50)) = of_int (c - n * 50)" by (rule fl_of_int)
  then have e: "fsub (of_int c) (of_int (n * 50)) = of_int c - of_int (n * 50)"
    by (simp add: fsub_def)
  have "fsub (fl (of_int c)) (fmul (py_floordiv (fsub a (of_int T)) 1000) 50)
      = fsub (of_int c) (of_int (n * 50))"
    by (simp only: sx fd fm fc)
  also note e
  also have "of_int c - of_int (n * 50) = (of_int c :: rat) - of_int n * 50" by simp
  finally show ?thesis unfolding n_def x_def .
qed

lemma child_credit_exact:
  assumes "fl a = a" "a < 2 ^ 53" "0 \<le> u" "0 \<le> v" "u * 2000 + v * 500 \<le> 2 ^ 53"
  shows "py_val (calculate_child_tax_credit u v a fs) =
     (if (if fs = MARRIED_JOINT then 400000 else 200000) < a
      then max 0 (of_int (u * 2000 + v * 500)
             - of_int \<lfloor>(a - (if fs = MARRIED_JOINT then 400000 else 200000)) / 1000\<rfloor> * 50)
      else of_int (u * 2000 + v * 500))"
proof -
  define T :: int where "T = (if fs = MARRIED_JOINT then 400000 else 200000)"
  have T: "(if fs = MARRIED_JOINT then 400000 else 200000) = (of_int T :: rat)"
    by (simp add: T_def)
  have T0: "0 \<le> T" by (simp add: T_def)
  have c0: "0 \<le> u * 2000 + v * 500" using assms(3,4) by simp
  show ?thesis
  proof (cases "of_int T < a")
    case True
    have "fsub (fl (of_int (u * 2000 + v * 500)))
            (fmul (py_floordiv (fsub a (of_int T)) 1000) 50)
        = of_int (u * 2000 + v * 500) - of_int \<lfloor>(a - of_int T) / 1000\<rfloor> * 50"
      using assms(1,2) True T0 c0 assms(5) by (rule child_credit_reduced)
    then show ?thesis unfolding child_credit_formula T using True by (simp only: if_True)
  next
    case False
    then show ?thesis unfolding child_credit_formula T by (simp only: if_False)
  qed
qed

lemma child_credit_scenario_E: "calculate_child_tax_credit 2 0 250000 SINGLE = PyFloat 1500"
  by code_simp

text \<open>
  C7. For every pair of dependent counts, AGI and filing status, the credit is
  \<open>under_17 * 2000 + over_17 * 500\<close>, reduced when AGI exceeds the threshold (400,000 for
  \<open>MARRIED_JOINT\<close>, else 200,000) by \<open>\<lfloor>(AGI - threshold) / 1000\<rfloor> * 50\<close> and floored at 0.
  The first conjunct is this formula in the operations of the machine, for every input. The
  second is the formula in exact arithmetic: the operations round nothing when AGI is a
  binary64 value below \<open>2 ^ 53\<close> and the counts are not negative, with a base credit of at
  most \<open>2 ^ 53\<close>. The third is the scenario of 2 children under 17, AGI 250,000 and a single
  filer: 1,500.
\<close>

theorem C7_child_credit:
  "py_val (calculate_child_tax_credit u v a fs) =
     (if (if fs = MARRIED_JOINT then 400000 else 200000) < a
      then max 0 (fsub (fl (of_int (u * 2000 + v * 500)))
             (fmul (py_floordiv
                (fsub a (if fs = MARRIED_JOINT then 400000 else 200000)) 1000) 50))
      else of_int (u * 2000 + v * 500))
   \<and> (fl a = a \<and> a < 2 ^ 53 \<and> 0 \<le> u \<and> 0 \<le> v \<and> u * 2000 + v * 500 \<le> 2 ^ 53 \<longrightarrow>
       py_val (calculate_child_tax_credit u v a fs) =
         (if (if fs = MARRIED_JOINT then 400000 else 200000) < a
          then max 0 (of_int (u * 2000 + v * 500)
                 - of_int \<lfloor>(a - (if fs = MARRIED_JOINT then 400000 else 200000)) / 1000\<rfloor>
                   * 50)
          else of_int (u * 2000 + v * 500)))
   \<and> calculate_child_tax_credit 2 0 250000 SINGLE = PyFloat 1500"
  using child_credit_formula [of u v a fs] child_credit_exact [of a u v fs]
    child_credit_scenario_E
  by blast

theorem C7_child_credit_witness:
  "fl 250000 = (250000::rat) \<and> (250000::rat) < 2 ^ 53
   \<and> py_val (calculate_child_tax_credit 2 0 250000 SINGLE) = 1500"
proof -
  have h: "fl 250000 = (250000::rat)" using fl_of_int [of 250000] by simp
  show ?thesis using C7_child_credit [of 2 0 250000 SINGLE] h by simp
qed

subsection \<open>Three inputs traced through the orchestrator\<close>

text \<open>
  Each local variable of \<^verbatim>\<open>calculate_taxes\<close> is evaluated once, from the values before it,
  for three inputs: long-term gains of 100,000 alone; wages of 50,000 with gains of 10,000;
  and wages of -200,000 with self-employment income of 100,000.
\<close>

lemma gross_income_gains:
  "gross_income_of (TaxInput_default\<lparr>long_term_gains := 100000\<rparr>) = 100000"
  unfolding gross_income_of_def 
  by code_simp

lemma adjustments_gains:
  "adjustments_of (TaxInput_default\<lparr>long_term_gains := 100000\<rparr>) = 0"
  unfolding adjustments_of_def 
  by code_simp

lemma agi_gains:
  "agi_of (TaxInput_default\<lparr>long_term_gains := 100000\<rparr>) = 100000"
  unfolding agi_of_def gross_income_gains adjustments_gains
  by code_simp

lemma standard_gains:
  "standard_of (TaxInput_default\<lparr>long_term_gains := 100000\<rparr>) = 14600"
  unfolding standard_of_def 
  by code_simp

lemma salt_gains:
  "salt_of (TaxInput_default\<lparr>long_term_gains := 100000\<rparr>) = 0"
  unfolding salt_of_def 
  by code_simp

lemma medical_deductible_gains:
  "medical_deductible_of (TaxInput_default\<lparr>long_term_gains := 100000\<rparr>) = 0"
  unfolding medical_deductible_of_def agi_gains
  by code_simp

lemma itemized_gains:
  "itemized_of (TaxInput_default\<lparr>long_term_gains := 100000\<rparr>) = 0"
  unfolding itemized_of_def salt_gains medical_deductible_gains
  by code_simp

lemma deductions_gains:
  "deductions_of (TaxInput_default\<lparr>long_term_gains := 100000\<rparr>) = 14600"
  unfolding deductions_of_def standard_gains itemized_gains
  by code_simp

lemma preferential_income_gains:
  "preferential_income_of (TaxInput_default\<lparr>long_term_gains := 100000\<rparr>) = 100000"
  unfolding preferential_income_of_def 
  by code_simp

lemma taxable_income_gains:
  "taxable_income_of (TaxInput_default\<lparr>long_term_gains := 100000\<rparr>) = 85400"
  unfolding taxable_income_of_def agi_gains deductions_gains
  by code_simp

lemma ordinary_taxable_gains:
  "ordinary_taxable_of (TaxInput_default\<lparr>long_term_gains := 100000\<rparr>) = 0"
  unfolding ordinary_taxable_of_def taxable_income_gains preferential_income_gains
  by code_simp

lemma federal_ordinary_gains:
  "federal_ordinary_of (TaxInput_default\<lparr>long_term_gains := 100000\<rparr>) = 0"
  unfolding federal_ordinary_of_def ordinary_taxable_gains
  by code_simp

lemma federal_ltcg_gains:
  "federal_ltcg_of (TaxInput_default\<lparr>long_term_gains := 100000\<rparr>) = 23025 / 4"
  unfolding federal_ltcg_of_def taxable_income_gains
  by code_simp

lemma federal_total_gains:
  "federal_total_of (TaxInput_default\<lparr>long_term_gains := 100000\<rparr>) = 23025 / 4"
  unfolding federal_total_of_def federal_ordinary_gains federal_ltcg_gains
  by code_simp

lemma investment_income_gains:
  "investment_income_of (TaxInput_default\<lparr>long_term_gains := 100000\<rparr>) = 100000"
  unfolding investment_income_of_def 
  by code_simp

lemma niit_gains:
  "niit_of (TaxInput_default\<lparr>long_term_gains := 100000\<rparr>) = 0"
  unfolding niit_of_def agi_gains investment_income_gains
  by code_simp

lemma state_tax_gains:
  "state_tax_of (TaxInput_default\<lparr>long_term_gains := 100000\<rparr>) = 3122118242651341 / 274877906944"
  unfolding state_tax_of_def taxable_income_gains
  by code_simp

lemma child_credit_gains:
  "child_credit_of (TaxInput_default\<lparr>long_term_gains := 100000\<rparr>) = PyInt 0"
  unfolding child_credit_of_def agi_gains
  by code_simp

lemma education_credit_gains:
  "education_credit_of (TaxInput_default\<lparr>long_term_gains := 100000\<rparr>) = PyFloat 0"
  unfolding education_credit_of_def 
  by code_simp

lemma total_credits_gains:
  "total_credits_of (TaxInput_default\<lparr>long_term_gains := 100000\<rparr>) = PyFloat 0"
  unfolding total_credits_of_def child_credit_gains education_credit_gains
  by code_simp

lemma total_tax_gains:
  "total_tax_of (TaxInput_default\<lparr>long_term_gains := 100000\<rparr>) = 4704384194497741 / 274877906944"
  unfolding total_tax_of_def federal_total_gains niit_gains state_tax_gains
  by code_simp

lemma tax_after_credits_gains:
  "tax_after_credits_of (TaxInput_default\<lparr>long_term_gains := 100000\<rparr>) = 4704384194497741 / 274877906944"
  unfolding tax_after_credits_of_def total_tax_gains total_credits_gains
  by code_simp

lemma gross_income_wages:
  "gross_income_of (TaxInput_default\<lparr>wages := 50000, long_term_gains := 10000\<rparr>) = 60000"
  unfolding gross_income_of_def 
  by code_simp

lemma adjustments_wages:
  "adjustments_of (TaxInput_default\<lparr>wages := 50000, long_term_gains := 10000\<rparr>) = 0"
  unfolding adjustments_of_def 
  by code_simp

lemma agi_wages:
  "agi_of (TaxInput_default\<lparr>wages := 50000, long_term_gains := 10000\<rparr>) = 60000"
  unfolding agi_of_def gross_income_wages adjustments_wages
  by code_simp

lemma standard_wages:
  "standard_of (TaxInput_default\<lparr>wages := 50000, long_term_gains := 10000\<rparr>) = 14600"
  unfolding standard_of_def 
  by code_simp

lemma salt_wages:
  "salt_of (TaxInput_default\<lparr>wages := 50000, long_term_gains := 10000\<rparr>) = 0"
  unfolding salt_of_def 
  by code_simp

lemma medical_deductible_wages:
  "medical_deductible_of (TaxInput_default\<lparr>wages := 50000, long_term_gains := 10000\<rparr>) = 0"
  unfolding medical_deductible_of_def agi_wages
  by code_simp

lemma itemized_wages:
  "itemized_of (TaxInput_default\<lparr>wages := 50000, long_term_gains := 10000\<rparr>) = 0"
  unfolding itemized_of_def salt_wages medical_deductible_wages
  by code_simp

lemma deductions_wages:
  "deductions_of (TaxInput_default\<lparr>wages := 50000, long_term_gains := 10000\<rparr>) = 14600"
  unfolding deductions_of_def standard_wages itemized_wages
  by code_simp

lemma preferential_income_wages:
  "preferential_income_of (TaxInput_default\<lparr>wages := 50000, long_term_gains := 10000\<rparr>) = 10000"
  unfolding preferential_income_of_def 
  by code_simp

lemma taxable_income_wages:
  "taxable_income_of (TaxInput_default\<lparr>wages := 50000, long_term_gains := 10000\<rparr>) = 45400"
  unfolding taxable_income_of_def agi_wages deductions_wages
  by code_simp

lemma ordinary_taxable_wages:
  "ordinary_taxable_of (TaxInput_default\<lparr>wages := 50000, long_term_gains := 10000\<rparr>) = 35400"
  unfolding ordinary_taxable_of_def taxable_income_wages preferential_income_wages
  by code_simp

lemma gross_income_loss:
  "gross_income_of (TaxInput_default\<lparr>wages := - 200000, self_employment := 100000\<rparr>) = - 100000"
  unfolding gross_income_of_def 
  by code_simp

lemma adjustments_loss:
  "adjustments_of (TaxInput_default\<lparr>wages := - 200000, self_employment := 100000\<rparr>) = 3883901130060595 / 549755813888"
  unfolding adjustments_of_def 
  by code_simp

lemma agi_loss:
  "agi_of (TaxInput_default\<lparr>wages := - 200000, self_employment := 100000\<rparr>) = - (3678717657428787 / 34359738368)"
  unfolding agi_of_def gross_income_loss adjustments_loss
  by code_simp

lemma standard_loss:
  "standard_of (TaxInput_default\<lparr>wages := - 200000, self_employment := 100000\<rparr>) = 14600"
  unfolding standard_of_def 
  by code_simp

lemma salt_loss:
  "salt_of (TaxInput_default\<lparr>wages := - 200000, self_employment := 100000\<rparr>) = 0"
  unfolding salt_of_def 
  by code_simp

lemma medical_deductible_loss:
  "medical_deductible_of (TaxInput_default\<lparr>wages := - 200000, self_employment := 100000\<rparr>) = 275903824307159 / 34359738368"
  unfolding medical_deductible_of_def agi_loss
  by code_simp

lemma itemized_loss:
  "itemized_of (TaxInput_default\<lparr>wages := - 200000, self_employment := 100000\<rparr>) = 275903824307159 / 34359738368"
  unfolding itemized_of_def salt_loss medical_deductible_loss
  by code_simp

lemma deductions_loss:
  "deductions_of (TaxInput_default\<lparr>wages := - 200000, self_employment := 100000\<rparr>) = 14600"
  unfolding deductions_of_def standard_loss itemized_loss
  by code_simp

lemma preferential_income_loss:
  "preferential_income_of (TaxInput_default\<lparr>wages := - 200000, self_employment := 100000\<rparr>) = 0"
  unfolding preferential_income_of_def 
  by code_simp

lemma taxable_income_loss:
  "taxable_income_of (TaxInput_default\<lparr>wages := - 200000, self_employment := 100000\<rparr>) = 0"
  unfolding taxable_income_of_def agi_loss deductions_loss
  by code_simp

lemma ordinary_taxable_loss:
  "ordinary_taxable_of (TaxInput_default\<lparr>wages := - 200000, self_employment := 100000\<rparr>) = 0"
  unfolding ordinary_taxable_of_def taxable_income_loss preferential_income_loss
  by code_simp

lemma federal_ordinary_loss:
  "federal_ordinary_of (TaxInput_default\<lparr>wages := - 200000, self_employment := 100000\<rparr>) = 0"
  unfolding federal_ordinary_of_def ordinary_taxable_loss
  by code_simp

lemma federal_ltcg_loss:
  "federal_ltcg_of (TaxInput_default\<lparr>wages := - 200000, self_employment := 100000\<rparr>) = 0"
  unfolding federal_ltcg_of_def taxable_income_loss
  by code_simp

lemma federal_total_loss:
  "federal_total_of (TaxInput_default\<lparr>wages := - 200000, self_employment := 100000\<rparr>) = 0"
  unfolding federal_total_of_def federal_ordinary_loss federal_ltcg_loss
  by code_simp

lemma investment_income_loss:
  "investment_income_of (TaxInput_default\<lparr>wages := - 200000, self_employment := 100000\<rparr>) = 0"
  unfolding investment_income_of_def 
  by code_simp

lemma niit_loss:
  "niit_of (TaxInput_default\<lparr>wages := - 200000, self_employment := 100000\<rparr>) = 0"
  unfolding niit_of_def agi_loss investment_income_loss
  by code_simp

lemma state_tax_loss:
  "state_tax_of (TaxInput_default\<lparr>wages := - 200000, self_employment := 100000\<rparr>) = 0"
  unfolding state_tax_of_def taxable_income_loss
  by code_simp

lemma child_credit_loss:
  "child_credit_of (TaxInput_default\<lparr>wages := - 200000, self_employment := 100000\<rparr>) = PyInt 0"
  unfolding child_credit_of_def agi_loss
  by code_simp

lemma education_credit_loss:
  "education_credit_of (TaxInput_default\<lparr>wages := - 200000, self_employment := 100000\<rparr>) = PyFloat 0"
  unfolding education_credit_of_def 
  by code_simp

lemma total_credits_loss:
  "total_credits_of (TaxInput_default\<lparr>wages := - 200000, self_employment := 100000\<rparr>) = PyFloat 0"
  unfolding total_credits_of_def child_credit_loss education_credit_loss
  by code_simp

lemma total_tax_loss:
  "total_tax_of (TaxInput_default\<lparr>wages := - 200000, self_employment := 100000\<rparr>) = 3883901130060595 / 274877906944"
  unfolding total_tax_of_def federal_total_loss niit_loss state_tax_loss
  by code_simp

lemma tax_after_credits_loss:
  "tax_after_credits_of (TaxInput_default\<lparr>wages := - 200000, self_employment := 100000\<rparr>) = 3883901130060595 / 274877906944"
  unfolding tax_after_credits_of_def total_tax_loss total_credits_loss
  by code_simp

lemma py_round_zero: "py_round nd 0 = 0"
  by (simp add: py_round_def rhe_def fl_0)

lemma effective_rate_field:
  "effective_rate (calculate_taxes i) = py_round 2 (effective_rate_of i)"
  by (simp add: calculate_taxes_def)

lemma effective_rate_loss:
  "effective_rate (calculate_taxes
      (TaxInput_default\<lparr>wages := - 200000, self_employment := 100000\<rparr>)) = 0"
  unfolding effective_rate_field effective_rate_of_def gross_income_loss
  by (simp add: py_round_zero)

lemma quotient_loss:
  "py_round 2 (fmul (fdiv
      (tax_after_credits_of
        (TaxInput_default\<lparr>wages := - 200000, self_employment := 100000\<rparr>))
      (gross_income_of
        (TaxInput_default\<lparr>wages := - 200000, self_employment := 100000\<rparr>))) 100)
   = fl (- 1413 / 100)"
  unfolding tax_after_credits_loss gross_income_loss
  by code_simp

lemma quotient_loss_nonzero: "fl (- 1413 / 100) \<noteq> 0"
  by code_simp

text \<open>
  C3, as stated, fails for a negative gross income. With wages of -200,000 and
  self-employment income of 100,000 the gross income is -100,000 and the tax after credits
  is the self-employment tax 14,129.55: the quotient times 100 rounds to -14.13, and the
  field \<open>effective_rate\<close> is 0, by the guard \<^verbatim>\<open>if gross_income > 0 else 0\<close>.
\<close>

theorem C3_negative_gross_counterexample:
  "gross_income_of (TaxInput_default\<lparr>wages := - 200000, self_employment := 100000\<rparr>) < 0
   \<and> effective_rate (calculate_taxes
        (TaxInput_default\<lparr>wages := - 200000, self_employment := 100000\<rparr>)) = 0
   \<and> effective_rate (calculate_taxes
        (TaxInput_default\<lparr>wages := - 200000, self_employment := 100000\<rparr>))
     \<noteq> py_round 2 (fmul (fdiv
        (tax_after_credits_of
          (TaxInput_default\<lparr>wages := - 200000, self_employment := 100000\<rparr>))
        (gross_income_of
          (TaxInput_default\<lparr>wages := - 200000, self_employment := 100000\<rparr>))) 100)"
  using effective_rate_loss quotient_loss quotient_loss_nonzero gross_income_loss
  by simp

text \<open>
  C3, amended. For every input (negative amounts included), the field \<open>effective_rate\<close>
  of the result is \<open>tax_after_credits / gross_income * 100\<close> rounded to two decimals when
  the gross income is positive, and 0 when the gross income is 0 or negative.
\<close>

theorem C3_effective_rate:
  "effective_rate (calculate_taxes i) =
     (if 0 < gross_income_of i
      then py_round 2 (fmul (fdiv (tax_after_credits_of i) (gross_income_of i)) 100)
      else 0)"
  by (simp add: effective_rate_field effective_rate_of_def py_round_zero)

lemma quotient_gains:
  "py_round 2 (fmul (fdiv
      (tax_after_credits_of (TaxInput_default\<lparr>long_term_gains := 100000\<rparr>))
      (gross_income_of (TaxInput_default\<lparr>long_term_gains := 100000\<rparr>))) 100)
   = fl (1711 / 100)"
  unfolding tax_after_credits_gains gross_income_gains
  by code_simp

theorem C3_effective_rate_witness:
  "0 < gross_income_of (TaxInput_default\<lparr>long_term_gains := 100000\<rparr>)
   \<and> effective_rate (calculate_taxes (TaxInput_default\<lparr>long_term_gains := 100000\<rparr>))
       = fl (1711 / 100)"
  using C3_effective_rate [of "TaxInput_default\<lparr>long_term_gains := 100000\<rparr>"]
    quotient_gains gross_income_gains
  by simp








end
